theory Spec2Isabelle
  imports Complex_Main "HOL-Library.Code_Target_Nat"
begin

section \<open>JavaScript strings\<close>

text \<open>
  A JavaScript string is a sequence of UTF-16 code units. A code unit is modelled as a
  natural number, so that \<open>length\<close> is the string's \<open>.length\<close> and the characters of
  the price pattern that lie outside ASCII are single code units, as in the source.
  \<open>js\<close> turns an ASCII literal into such a string.
\<close>

type_synonym js_string = "nat list"

definition js :: "string \<Rightarrow> js_string" where
  "js s = map of_char s"

text \<open>\<open>String.prototype.startsWith\<close> and \<open>String.prototype.includes\<close>.\<close>

definition startsWith :: "js_string \<Rightarrow> js_string \<Rightarrow> bool" where
  "startsWith s p = (take (length p) s = p)"

fun js_includes :: "js_string \<Rightarrow> js_string \<Rightarrow> bool" where
  "js_includes [] p = (p = [])"
| "js_includes (c # cs) p = (startsWith (c # cs) p \<or> js_includes cs p)"

text \<open>
  \<open>String.prototype.trim\<close> removes white space and line terminators from both ends:
  TAB, LF, VT, FF, CR, SP, NBSP, U+1680, U+2000 to U+200A, U+2028, U+2029, U+202F,
  U+205F, U+3000 and U+FEFF.
\<close>

definition is_js_space :: "nat \<Rightarrow> bool" where
  "is_js_space c = (c \<in> {9, 10, 11, 12, 13, 32, 160, 5760, 8232, 8233, 8239, 8287, 12288, 65279}
      \<or> (8192 \<le> c \<and> c \<le> 8202))"

definition trim :: "js_string \<Rightarrow> js_string" where
  "trim s = rev (dropWhile is_js_space (rev (dropWhile is_js_space s)))"

text \<open>
  \<open>String.prototype.toLowerCase\<close> follows the Unicode case tables, which are part of
  the language and not of this repository. The functions that call it take the
  conversion as a parameter \<open>lower\<close>; \<open>ascii_lower\<close> is the conversion on the Basic
  Latin block, where the two agree.
\<close>

definition ascii_lower :: "js_string \<Rightarrow> js_string" where
  "ascii_lower s = map (\<lambda>c. if 65 \<le> c \<and> c \<le> 90 then c + 32 else c) s"

section \<open>Faults\<close>

text \<open>
  An awaited browser operation either resolves with a value or rejects with an error
  carrying a message: \<open>Inl\<close> is the rejection.
\<close>

type_synonym 'a eval = "js_string + 'a"

section \<open>Error detection (src/modules/errorDetector.js)\<close>

datatype severity = Critical | WarningSev

text \<open>
  The entries of \<open>results.consoleErrors\<close>, \<open>results.networkFailures\<close> (shared with
  \<open>results.corsErrors\<close>), \<open>results.resourceFailures\<close> and \<open>results.securityErrors\<close>.
  A field that an entry does not have (\<open>undefined\<close>) is \<open>None\<close>. Time stamps, the
  parsed location and the stack trace are left out: nothing reads them.
\<close>

datatype console_kind = Console_error | Page_error

record console_entry =
  ce_type :: console_kind
  ce_message :: js_string
  ce_severity :: "severity option"

record network_entry =
  ne_url :: js_string
  ne_method :: js_string
  ne_failure :: "js_string option"
  ne_status :: "nat option"
  ne_severity :: "severity option"

datatype resource_type = Stylesheet | Script | Image | Font | OtherResource

record resource_entry =
  re_url :: js_string
  re_method :: js_string
  re_status :: nat
  re_severity :: "severity option"
  re_resourceType :: resource_type

datatype security_kind = Mixed_content | Insecure_cookie

record security_entry =
  se_type :: security_kind
  se_url :: js_string

record perf_entry =
  pe_loadComplete :: int

record error_results =
  er_passed :: bool
  consoleErrors :: "console_entry list"
  networkFailures :: "network_entry list"
  resourceFailures :: "resource_entry list"
  corsErrors :: "network_entry list"
  performanceWarnings :: "perf_entry list"
  securityErrors :: "security_entry list"
  totalErrors :: nat
  totalWarnings :: nat

text \<open>The constructor's \<open>this.results\<close>.\<close>

definition ErrorDetector_init :: error_results where
  "ErrorDetector_init = \<lparr> er_passed = True, consoleErrors = [], networkFailures = [],
     resourceFailures = [], corsErrors = [], performanceWarnings = [], securityErrors = [],
     totalErrors = 0, totalWarnings = 0 \<rparr>"

text \<open>\<open>config.errorTolerance\<close>; the configuration file may hold any integer.\<close>

record errorTolerance =
  critical :: int
  warning :: int
  network :: int

definition defaultErrorTolerance :: errorTolerance where
  "defaultErrorTolerance = \<lparr> critical = 0, warning = 5, network = 2 \<rparr>"

text \<open>
  The events the four listeners of \<open>setup\<close> receive. A console message has a type and
  a text; an uncaught exception has a message; a failed request has a URL, a method and
  the failure's error text if there is one; a response has a status, a URL, a method,
  its \<open>set-cookie\<close> header values and the URL of the page at that moment.
\<close>

datatype event =
    ConsoleMsg js_string js_string
  | PageErrorEv js_string
  | RequestFailed js_string js_string "js_string option"
  | ResponseEv nat js_string js_string "js_string list" js_string

definition isCriticalResource :: "js_string \<Rightarrow> bool" where
  "isCriticalResource url = list_ex (\<lambda>pattern. js_includes url pattern)
     [js ''/checkout'', js ''/cart'', js ''/api'', js ''.css'', js ''main.js'',
      js ''app.js'', js ''bundle.js'']"

text \<open>
  \<open>getResourceType\<close>; the third test is the case-insensitive regular expression
  \<open>/\.(jpg|jpeg|png|gif|webp|svg)/i\<close>, on ASCII letters only, so it is the pattern
  searched in the ASCII-lowered URL.
\<close>

definition getResourceType :: "js_string \<Rightarrow> resource_type" where
  "getResourceType url =
     (if js_includes url (js ''.css'') then Stylesheet
      else if js_includes url (js ''.js'') then Script
      else if list_ex (\<lambda>ext. js_includes (ascii_lower url) ext)
                [js ''.jpg'', js ''.jpeg'', js ''.png'', js ''.gif'', js ''.webp'', js ''.svg'']
        then Image
      else if js_includes url (js ''font'') then Font
      else OtherResource)"

text \<open>The body of \<open>cookies.forEach\<close> in \<open>checkSecurityIssues\<close>.\<close>

definition checkCookie :: "js_string \<Rightarrow> js_string \<Rightarrow> js_string \<Rightarrow> error_results \<Rightarrow> error_results" where
  "checkCookie url pageUrl cookie r =
     (if \<not> js_includes cookie (js ''Secure'') \<and> startsWith pageUrl (js ''https://'')
      then r\<lparr> securityErrors := securityErrors r @ [\<lparr> se_type = Insecure_cookie, se_url = url \<rparr>] \<rparr>
      else r)"

definition checkSecurityIssues :: "js_string \<Rightarrow> js_string list \<Rightarrow> js_string \<Rightarrow> error_results \<Rightarrow> error_results" where
  "checkSecurityIssues url cookies pageUrl r =
     (let r1 = (if startsWith url (js ''http://'') \<and> startsWith pageUrl (js ''https://'')
                then r\<lparr> securityErrors := securityErrors r @ [\<lparr> se_type = Mixed_content, se_url = url \<rparr>] \<rparr>
                else r)
      in fold (checkCookie url pageUrl) cookies r1)"

text \<open>The four listeners of \<open>setup\<close>, one equation each.\<close>

fun listener :: "event \<Rightarrow> error_results \<Rightarrow> error_results" where
  "listener (ConsoleMsg type text) r =
     (if type = js ''error''
      then r\<lparr> consoleErrors := consoleErrors r @
                 [\<lparr> ce_type = Console_error, ce_message = text, ce_severity = None \<rparr>],
               totalErrors := totalErrors r + 1 \<rparr>
      else if type = js ''warning'' then r\<lparr> totalWarnings := totalWarnings r + 1 \<rparr>
      else r)"
| "listener (PageErrorEv message) r =
     r\<lparr> consoleErrors := consoleErrors r @
           [\<lparr> ce_type = Page_error, ce_message = message, ce_severity = None \<rparr>],
        totalErrors := totalErrors r + 1 \<rparr>"
| "listener (RequestFailed url method errorText) r =
     (let errorInfo = \<lparr> ne_url = url, ne_method = method,
            ne_failure = Some (case errorText of None \<Rightarrow> js ''Unknown failure''
                               | Some t \<Rightarrow> if t = [] then js ''Unknown failure'' else t),
            ne_status = None, ne_severity = None \<rparr>;
          cors = (case errorText of None \<Rightarrow> False
                  | Some t \<Rightarrow> js_includes t (js ''CORS'') \<or> js_includes t (js ''cors''));
          r1 = (if cors then r\<lparr> corsErrors := corsErrors r @ [errorInfo] \<rparr>
                else r\<lparr> networkFailures := networkFailures r @ [errorInfo] \<rparr>)
      in r1\<lparr> totalErrors := totalErrors r1 + 1 \<rparr>)"
| "listener (ResponseEv status url method cookies pageUrl) r =
     (let r1 =
        (if status \<ge> 400 then
           (if status \<ge> 500 then
              r\<lparr> networkFailures := networkFailures r @
                    [\<lparr> ne_url = url, ne_method = method, ne_failure = None,
                       ne_status = Some status, ne_severity = Some Critical \<rparr>],
                 totalErrors := totalErrors r + 1 \<rparr>
            else if isCriticalResource url then
              r\<lparr> resourceFailures := resourceFailures r @
                    [\<lparr> re_url = url, re_method = method, re_status = status,
                       re_severity = Some Critical, re_resourceType = getResourceType url \<rparr>],
                 totalErrors := totalErrors r + 1 \<rparr>
            else
              r\<lparr> networkFailures := networkFailures r @
                    [\<lparr> ne_url = url, ne_method = method, ne_failure = None,
                       ne_status = Some status, ne_severity = Some WarningSev \<rparr>],
                 totalWarnings := totalWarnings r + 1 \<rparr>)
         else r)
      in checkSecurityIssues url cookies pageUrl r1)"

text \<open>The events of the observation window, delivered in order.\<close>

definition collect :: "event list \<Rightarrow> error_results \<Rightarrow> error_results" where
  "collect evs r = fold listener evs r"

text \<open>
  \<open>checkPerformanceMetrics\<close>: the page evaluation yields \<open>loadComplete\<close> or throws; a
  throw is ignored.
\<close>

definition checkPerformanceMetrics :: "int eval \<Rightarrow> error_results \<Rightarrow> error_results" where
  "checkPerformanceMetrics perf r =
     (case perf of
        Inl _ \<Rightarrow> r
      | Inr loadComplete \<Rightarrow>
          if loadComplete > 5000
          then r\<lparr> performanceWarnings := performanceWarnings r @ [\<lparr> pe_loadComplete = loadComplete \<rparr>] \<rparr>
          else r)"

definition ignorablePatterns :: "js_string list" where
  "ignorablePatterns = [js ''analytics'', js ''google-analytics'', js ''facebook'',
     js ''advertising'', js ''adblock'', js ''tracking'', js ''pixel'']"

definition ignorable :: "(js_string \<Rightarrow> js_string) \<Rightarrow> console_entry \<Rightarrow> bool" where
  "ignorable lower error =
     (let message = lower (ce_message error)
      in list_ex (\<lambda>pattern. js_includes message pattern) ignorablePatterns)"

definition categorize :: "(js_string \<Rightarrow> js_string) \<Rightarrow> console_entry \<Rightarrow> console_entry" where
  "categorize lower error =
     (let message = lower (ce_message error);
          severity = (if js_includes message (js ''uncaught'') \<or>
                         js_includes message (js ''syntax error'') \<or>
                         js_includes message (js ''reference error'') \<or>
                         js_includes message (js ''type error'')
                      then Critical else WarningSev)
      in error\<lparr> ce_severity := Some severity \<rparr>)"

definition analyzeErrors :: "(js_string \<Rightarrow> js_string) \<Rightarrow> error_results \<Rightarrow> error_results" where
  "analyzeErrors lower r =
     (let r1 = r\<lparr> consoleErrors := filter (\<lambda>error. \<not> ignorable lower error) (consoleErrors r) \<rparr>
      in r1\<lparr> consoleErrors := map (categorize lower) (consoleErrors r1) \<rparr>)"

definition criticalErrors :: "error_results \<Rightarrow> nat" where
  "criticalErrors r = length (filter (\<lambda>e. ce_severity e = Some Critical) (consoleErrors r))"

definition criticalNetworkFailures :: "error_results \<Rightarrow> nat" where
  "criticalNetworkFailures r = length (filter (\<lambda>f. ne_severity f = Some Critical) (networkFailures r))"

definition criticalResourceFailures :: "error_results \<Rightarrow> nat" where
  "criticalResourceFailures r = length (filter (\<lambda>f. re_severity f = Some Critical) (resourceFailures r))"

definition totalCritical :: "error_results \<Rightarrow> nat" where
  "totalCritical r = criticalErrors r + criticalNetworkFailures r + criticalResourceFailures r"

definition checkErrorTolerance :: "errorTolerance \<Rightarrow> error_results \<Rightarrow> bool" where
  "checkErrorTolerance tol r =
     (if int (totalCritical r) > critical tol then False
      else if int (totalWarnings r) > warning tol then False
      else True)"

text \<open>
  \<open>detect\<close>, on the results the listeners have accumulated when the two waits are
  over.
\<close>

definition detect :: "errorTolerance \<Rightarrow> (js_string \<Rightarrow> js_string) \<Rightarrow> int eval \<Rightarrow> error_results \<Rightarrow> error_results" where
  "detect tol lower perf r =
     (let r1 = checkPerformanceMetrics perf r;
          r2 = analyzeErrors lower r1
      in r2\<lparr> er_passed := checkErrorTolerance tol r2 \<rparr>)"

section \<open>Product page tests (src/modules/productPageTester.js)\<close>

text \<open>
  What the tests read of a node: its text content (\<open>null\<close> is \<open>None\<close>), the width and
  height of its bounding rectangle, and its \<open>disabled\<close> property. Each is read by a
  page evaluation, which may throw.
\<close>

record element =
  el_textContent :: "js_string option eval"
  el_rect :: "(real \<times> real) eval"
  el_disabled :: "bool eval"

text \<open>
  The page, as the tests see it: \<open>page.$\<close>, \<open>page.waitForSelector\<close> (ten seconds),
  the number of handles \<open>page.$$\<close> returns, \<open>page.title\<close>, the content of the
  description meta tag, and whether the try block of \<open>waitForPageLoad\<close> threw (its
  polling loop is bounded by the clock).
\<close>

record page =
  query :: "js_string \<Rightarrow> element option eval"
  waitForSelector :: "js_string \<Rightarrow> element option eval"
  queryAll :: "js_string \<Rightarrow> nat eval"
  pageTitle :: "js_string eval"
  metaContent :: "js_string eval"
  loadWait :: "unit eval"

text \<open>
  One platform's entry of \<open>config.selectors\<close>. A list the entry lacks is \<open>None\<close>;
  iterating over it throws a TypeError, except for the price, which has a fallback.
\<close>

record selectors =
  productTitle :: "js_string list option"
  productPrice :: "js_string list option"
  addToCart :: "js_string list option"
  productDescription :: "js_string list option"
  productImage :: "js_string list option"
  productVariant :: "js_string list option"

datatype finding_type = Critical_finding | Warning_finding | Page_load_finding

datatype finding_element = Product_title | Product_price | Product_description
  | Add_to_cart_button | Product_images | Meta_title | Meta_description | Meta_information

record finding =
  f_type :: finding_type
  f_element :: "finding_element option"
  f_message :: js_string
  f_selectors :: "js_string list option"
  f_error :: "js_string option"

text \<open>An entry of \<open>results.elements\<close>; a field the entry lacks is \<open>None\<close>.\<close>

record elem_result =
  r_found :: bool
  r_selector :: "js_string option"
  r_text :: "js_string option"
  r_visible :: "bool option"
  r_enabled :: "bool option"
  r_count :: "nat option"

definition not_found :: elem_result where
  "not_found = \<lparr> r_found = False, r_selector = None, r_text = None, r_visible = None,
     r_enabled = None, r_count = None \<rparr>"

record meta_result =
  meta_title :: "js_string option"
  meta_description :: "js_string option"

record elements =
  e_title :: "elem_result option"
  e_price :: "elem_result option"
  e_description :: "elem_result option"
  e_addToCart :: "elem_result option"
  e_images :: "elem_result option"
  e_variants :: "elem_result option"
  e_meta :: "meta_result option"

record pp_results =
  pp_passed :: bool
  errors :: "finding list"
  warnings :: "finding list"
  elements :: elements

definition ProductPageTester_init :: pp_results where
  "ProductPageTester_init = \<lparr> pp_passed = True, errors = [], warnings = [],
     elements = \<lparr> e_title = None, e_price = None, e_description = None, e_addToCart = None,
       e_images = None, e_variants = None, e_meta = None \<rparr> \<rparr>"

definition waitForPageLoad :: "page \<Rightarrow> pp_results \<Rightarrow> pp_results" where
  "waitForPageLoad pg r =
     (case loadWait pg of
        Inl error \<Rightarrow> r\<lparr> warnings := warnings r @
          [\<lparr> f_type = Page_load_finding, f_element = None,
             f_message = js ''Page did not reach networkidle state within timeout'',
             f_selectors = None, f_error = Some error \<rparr>] \<rparr>
      | Inr _ \<Rightarrow> r)"

text \<open>
  \<open>page.evaluate(el => el.textContent?.trim(), element)\<close>: the trimmed text,
  \<open>undefined\<close> (\<open>None\<close>) when the text content is \<open>null\<close>.
\<close>

definition evaluate_text :: "element \<Rightarrow> js_string option eval" where
  "evaluate_text el = (case el_textContent el of Inl e \<Rightarrow> Inl e | Inr t \<Rightarrow> Inr (map_option trim t))"

text \<open>
  The try block of one iteration of a text loop. \<open>lookup\<close> is \<open>page.$\<close> or
  \<open>page.waitForSelector\<close>, \<open>ok\<close> the test on the text. \<open>Inl\<close> is a throw, which the
  catch clause turns into \<open>continue\<close>; \<open>Inr None\<close> falls through to the next iteration;
  \<open>Inr (Some t)\<close> reaches \<open>break\<close>.
\<close>

definition try_text :: "(js_string \<Rightarrow> element option eval) \<Rightarrow> (js_string \<Rightarrow> bool) \<Rightarrow> js_string \<Rightarrow> js_string option eval" where
  "try_text lookup ok sel =
     (case lookup sel of
        Inl e \<Rightarrow> Inl e
      | Inr None \<Rightarrow> Inr None
      | Inr (Some el) \<Rightarrow>
          (case evaluate_text el of
             Inl e \<Rightarrow> Inl e
           | Inr None \<Rightarrow> Inr None
           | Inr (Some t) \<Rightarrow> if ok t then Inr (Some t) else Inr None))"

text \<open>
  The \<open>for ... of\<close> loop over the candidates. The result is the selector that won with
  its text, and the selectors handed to the page, in order.
\<close>

fun text_loop :: "(js_string \<Rightarrow> element option eval) \<Rightarrow> (js_string \<Rightarrow> bool) \<Rightarrow> js_string list \<Rightarrow> (js_string \<times> js_string) option \<times> js_string list" where
  "text_loop lookup ok [] = (None, [])"
| "text_loop lookup ok (sel # rest) =
     (case try_text lookup ok sel of
        Inl _ \<Rightarrow> (let (res, queried) = text_loop lookup ok rest in (res, sel # queried))
      | Inr None \<Rightarrow> (let (res, queried) = text_loop lookup ok rest in (res, sel # queried))
      | Inr (Some t) \<Rightarrow> (Some (sel, t), [sel]))"

text \<open>The three tests on the text: \<open>titleText && titleText.length > 0\<close>,
  \<open>priceText && /\$|\<euro>|\<pounds>|\<yen>|\d/.test(priceText)\<close> and
  \<open>descriptionText && descriptionText.length > 10\<close>.\<close>

definition title_ok :: "js_string \<Rightarrow> bool" where
  "title_ok t = (t \<noteq> [] \<and> length t > 0)"

definition price_ok :: "js_string \<Rightarrow> bool" where
  "price_ok t = (t \<noteq> [] \<and> list_ex (\<lambda>c. c = 36 \<or> c = 8364 \<or> c = 163 \<or> c = 165 \<or> (48 \<le> c \<and> c \<le> 57)) t)"

definition description_ok :: "js_string \<Rightarrow> bool" where
  "description_ok t = (t \<noteq> [] \<and> length t > 10)"

definition title_loop :: "page \<Rightarrow> js_string list \<Rightarrow> (js_string \<times> js_string) option \<times> js_string list" where
  "title_loop pg sels = text_loop (query pg) title_ok sels"

definition price_loop :: "page \<Rightarrow> js_string list \<Rightarrow> (js_string \<times> js_string) option \<times> js_string list" where
  "price_loop pg sels = text_loop (waitForSelector pg) price_ok sels"

definition description_loop :: "page \<Rightarrow> js_string list \<Rightarrow> (js_string \<times> js_string) option \<times> js_string list" where
  "description_loop pg sels = text_loop (query pg) description_ok sels"

definition critical_finding :: "finding_element \<Rightarrow> string \<Rightarrow> js_string list option \<Rightarrow> finding" where
  "critical_finding el msg sels = \<lparr> f_type = Critical_finding, f_element = Some el,
     f_message = js msg, f_selectors = sels, f_error = None \<rparr>"

definition warning_finding :: "finding_element \<Rightarrow> js_string \<Rightarrow> js_string list option \<Rightarrow> finding" where
  "warning_finding el msg sels = \<lparr> f_type = Warning_finding, f_element = Some el,
     f_message = msg, f_selectors = sels, f_error = None \<rparr>"

definition testProductTitle :: "page \<Rightarrow> js_string list \<Rightarrow> pp_results \<Rightarrow> pp_results" where
  "testProductTitle pg sels r =
     (case fst (title_loop pg sels) of
        Some (sel, titleText) \<Rightarrow>
          r\<lparr> elements := (elements r)\<lparr> e_title := Some (not_found\<lparr> r_found := True,
               r_selector := Some sel, r_text := Some titleText \<rparr>) \<rparr> \<rparr>
      | None \<Rightarrow>
          r\<lparr> errors := errors r @
                [critical_finding Product_title ''Product title not found on page'' (Some sels)],
             elements := (elements r)\<lparr> e_title := Some not_found \<rparr> \<rparr>)"

definition defaultPriceSelectors :: "js_string list" where
  "defaultPriceSelectors = [js ''[data-testid=\"product-price\"]'', js ''.price'', js ''[data-price]'']"

definition testProductPrice :: "page \<Rightarrow> js_string list option \<Rightarrow> pp_results \<Rightarrow> pp_results" where
  "testProductPrice pg cfg r =
     (let sels = (case cfg of Some l \<Rightarrow> l | None \<Rightarrow> defaultPriceSelectors)
      in case fst (price_loop pg sels) of
        Some (sel, priceText) \<Rightarrow>
          r\<lparr> elements := (elements r)\<lparr> e_price := Some (not_found\<lparr> r_found := True,
               r_selector := Some sel, r_text := Some priceText \<rparr>) \<rparr> \<rparr>
      | None \<Rightarrow>
          r\<lparr> errors := errors r @
                [critical_finding Product_price ''Product price not found on page'' (Some sels)],
             elements := (elements r)\<lparr> e_price := Some not_found \<rparr> \<rparr>)"

definition testProductDescription :: "page \<Rightarrow> js_string list \<Rightarrow> pp_results \<Rightarrow> pp_results" where
  "testProductDescription pg sels r =
     (case fst (description_loop pg sels) of
        Some (sel, descriptionText) \<Rightarrow>
          r\<lparr> elements := (elements r)\<lparr> e_description := Some (not_found\<lparr> r_found := True,
               r_selector := Some sel \<rparr>) \<rparr> \<rparr>
      | None \<Rightarrow>
          r\<lparr> warnings := warnings r @
                [warning_finding Product_description
                   (js ''Product description not found or too short'') (Some sels)],
             elements := (elements r)\<lparr> e_description := Some not_found \<rparr> \<rparr>)"

text \<open>
  The add-to-cart loop keeps three flags and the entry it writes to
  \<open>elements.addToCart\<close>, if it writes one.
  \<open>buttonFound\<close> is set before the two evaluations, so it stays set when one of them
  throws and the loop goes on to the next candidate.
\<close>

record button_state =
  buttonFound :: bool
  buttonVisible :: bool
  buttonEnabled :: bool
  button_entry :: "elem_result option"

definition button_init :: button_state where
  "button_init = \<lparr> buttonFound = False, buttonVisible = False, buttonEnabled = False,
     button_entry = None \<rparr>"

fun addToCart_loop :: "page \<Rightarrow> js_string list \<Rightarrow> button_state \<Rightarrow> button_state" where
  "addToCart_loop pg [] st = st"
| "addToCart_loop pg (sel # rest) st =
     (case query pg sel of
        Inl _ \<Rightarrow> addToCart_loop pg rest st
      | Inr None \<Rightarrow> addToCart_loop pg rest st
      | Inr (Some el) \<Rightarrow>
          (let st1 = st\<lparr> buttonFound := True \<rparr> in
           case el_rect el of
             Inl _ \<Rightarrow> addToCart_loop pg rest st1
           | Inr (w, h) \<Rightarrow>
               (let isVisible = (w > 0 \<and> h > 0) in
                case el_disabled el of
                  Inl _ \<Rightarrow> addToCart_loop pg rest st1
                | Inr disabled \<Rightarrow>
                    (let isEnabled = (\<not> disabled) in
                     st1\<lparr> buttonVisible := (if isVisible then True else buttonVisible st1),
                          buttonEnabled := (if isEnabled then True else buttonEnabled st1),
                          button_entry := Some (not_found\<lparr> r_found := True, r_selector := Some sel,
                            r_visible := Some isVisible, r_enabled := Some isEnabled \<rparr>) \<rparr>))))"

definition testAddToCartButton :: "page \<Rightarrow> js_string list \<Rightarrow> pp_results \<Rightarrow> pp_results" where
  "testAddToCartButton pg sels r =
     (let st = addToCart_loop pg sels button_init;
          r1 = (case button_entry st of
                  None \<Rightarrow> r
                | Some entry \<Rightarrow> r\<lparr> elements := (elements r)\<lparr> e_addToCart := Some entry \<rparr> \<rparr>)
      in if \<not> buttonFound st then
           r1\<lparr> errors := errors r1 @
                 [critical_finding Add_to_cart_button ''Add to cart button not found on page'' (Some sels)],
               elements := (elements r1)\<lparr> e_addToCart := Some not_found \<rparr> \<rparr>
         else if \<not> buttonVisible st then
           r1\<lparr> errors := errors r1 @
                 [critical_finding Add_to_cart_button ''Add to cart button is not visible'' None] \<rparr>
         else if \<not> buttonEnabled st then
           r1\<lparr> warnings := warnings r1 @
                 [warning_finding Add_to_cart_button
                    (js ''Add to cart button is disabled (product may be out of stock)'') None] \<rparr>
         else r1)"

text \<open>
  The loops of \<open>testProductImages\<close> and \<open>testProductVariants\<close>: the first selector
  for which \<open>page.$$\<close> returns at least one handle, with the number of handles.
\<close>

fun count_loop :: "page \<Rightarrow> js_string list \<Rightarrow> (js_string \<times> nat) option" where
  "count_loop pg [] = None"
| "count_loop pg (sel # rest) =
     (case queryAll pg sel of
        Inl _ \<Rightarrow> count_loop pg rest
      | Inr n \<Rightarrow> if n > 0 then Some (sel, n) else count_loop pg rest)"

definition testProductImages :: "page \<Rightarrow> js_string list \<Rightarrow> pp_results \<Rightarrow> pp_results" where
  "testProductImages pg sels r =
     (case count_loop pg sels of
        Some (sel, n) \<Rightarrow>
          r\<lparr> elements := (elements r)\<lparr> e_images := Some (not_found\<lparr> r_found := True,
               r_count := Some n, r_selector := Some sel \<rparr>) \<rparr> \<rparr>
      | None \<Rightarrow>
          r\<lparr> warnings := warnings r @
                [warning_finding Product_images
                   (js ''No product images found with standard selectors'') (Some sels)],
             elements := (elements r)\<lparr> e_images := Some not_found \<rparr> \<rparr>)"

definition testProductVariants :: "page \<Rightarrow> js_string list \<Rightarrow> pp_results \<Rightarrow> pp_results" where
  "testProductVariants pg sels r =
     (case count_loop pg sels of
        Some (sel, n) \<Rightarrow>
          r\<lparr> elements := (elements r)\<lparr> e_variants := Some (not_found\<lparr> r_found := True,
               r_count := Some n, r_selector := Some sel \<rparr>) \<rparr> \<rparr>
      | None \<Rightarrow> r)"

text \<open>
  \<open>testMetaInformation\<close>: a throw of \<open>page.title\<close> reaches the outer catch; a throw
  of \<open>page.$eval\<close> is caught on the spot and gives \<open>null\<close>. The empty string is falsy.
\<close>

definition testMetaInformation :: "page \<Rightarrow> pp_results \<Rightarrow> pp_results" where
  "testMetaInformation pg r =
     (case pageTitle pg of
        Inl error \<Rightarrow>
          r\<lparr> warnings := warnings r @
                [warning_finding Meta_information
                   (js ''Error checking meta information: '' @ error) None] \<rparr>
      | Inr title \<Rightarrow>
          (let metaDescription = (case metaContent pg of Inl _ \<Rightarrow> None | Inr c \<Rightarrow> Some c);
               r1 = r\<lparr> elements := (elements r)\<lparr> e_meta := Some
                      \<lparr> meta_title = (if title = [] then None else Some title),
                        meta_description = (case metaDescription of None \<Rightarrow> None
                           | Some c \<Rightarrow> if c = [] then None else Some c) \<rparr> \<rparr> \<rparr>;
               r2 = (if title = [] \<or> length title < 5
                     then r1\<lparr> warnings := warnings r1 @
                            [warning_finding Meta_title (js ''Page title is missing or too short'') None] \<rparr>
                     else r1)
           in if metaDescription = None \<or> metaDescription = Some []
              then r2\<lparr> warnings := warnings r2 @
                     [warning_finding Meta_description (js ''Meta description is missing'') None] \<rparr>
              else r2))"

text \<open>
  \<open>test\<close>. Reading a list that the selector entry lacks throws a TypeError, which
  nothing in \<open>test\<close> catches: the call rejects (\<open>Inl\<close>).
\<close>

definition not_iterable :: js_string where
  "not_iterable = js ''undefined is not iterable''"

definition ProductPageTester_test :: "page \<Rightarrow> selectors \<Rightarrow> pp_results eval" where
  "ProductPageTester_test pg sel =
     (let r0 = waitForPageLoad pg ProductPageTester_init in
      (case productTitle sel of None \<Rightarrow> Inl not_iterable | Some titles \<Rightarrow>
      (let r1 = testProductTitle pg titles r0;
           r2 = testProductPrice pg (productPrice sel) r1 in
      (case productDescription sel of None \<Rightarrow> Inl not_iterable | Some descriptions \<Rightarrow>
      (let r3 = testProductDescription pg descriptions r2 in
      (case addToCart sel of None \<Rightarrow> Inl not_iterable | Some buttons \<Rightarrow>
      (let r4 = testAddToCartButton pg buttons r3 in
      (case productImage sel of None \<Rightarrow> Inl not_iterable | Some imgs \<Rightarrow>
      (let r5 = testProductImages pg imgs r4 in
      (case productVariant sel of None \<Rightarrow> Inl not_iterable | Some variants \<Rightarrow>
      (let r6 = testProductVariants pg variants r5;
           r7 = testMetaInformation pg r6
       in Inr (r7\<lparr> pp_passed := (errors r7 = []) \<rparr>))))))))))))"

section \<open>Image validation (src/modules/imageValidator.js)\<close>

text \<open>What \<open>getAllImages\<close> returns for one \<open>img\<close> node.\<close>

record image =
  src :: js_string
  currentSrc :: js_string
  alt :: js_string
  width :: nat
  height :: nat
  complete :: bool
  loading :: js_string

text \<open>
  The error text of an image record: \<open>Http n\<close> is the text \<open>HTTP n\<close>, \<open>Message m\<close> a
  message taken from an exception, \<open>Zero_dimensions\<close> the text
  \<open>Image has zero dimensions\<close>.
\<close>

datatype image_error = Http nat | Message js_string | Zero_dimensions

record imageInfo =
  ii_src :: js_string
  ii_alt :: js_string
  ii_width :: nat
  ii_height :: nat
  ii_loaded :: bool
  ii_status :: "nat option"
  ii_error :: "image_error option"

record alt_entry =
  ae_src :: js_string
  ae_width :: nat
  ae_height :: nat

record image_results =
  im_passed :: bool
  totalImages :: nat
  loadedImages :: int
  failedImages :: "imageInfo list"
  missingAltText :: "alt_entry list"
  images :: "imageInfo list"
  im_warnings :: "js_string list"

definition ImageValidator_init :: image_results where
  "ImageValidator_init = \<lparr> im_passed = True, totalImages = 0, loadedImages = 0,
     failedImages = [], missingAltText = [], images = [], im_warnings = [] \<rparr>"

text \<open>
  The probe of \<open>validateImage\<close>: the page evaluation itself may reject; inside it,
  \<open>fetch\<close> rejects or resolves with a status and an \<open>ok\<close> flag.
\<close>

datatype fetch_outcome = Evaluate_rejects js_string | Fetch_rejects js_string | Fetch_resolves nat bool

record probe_response =
  pr_status :: nat
  pr_ok :: bool
  pr_error :: "js_string option"

definition probe_evaluate :: "fetch_outcome \<Rightarrow> probe_response eval" where
  "probe_evaluate f =
     (case f of
        Evaluate_rejects m \<Rightarrow> Inl m
      | Fetch_rejects m \<Rightarrow> Inr \<lparr> pr_status = 0, pr_ok = False, pr_error = Some m \<rparr>
      | Fetch_resolves status ok \<Rightarrow>
          Inr \<lparr> pr_status = (if status = 0 then 200 else status), pr_ok = ok, pr_error = None \<rparr>)"

text \<open>\<open>a || b\<close> on strings: the empty string is falsy.\<close>

definition or_else :: "js_string \<Rightarrow> js_string \<Rightarrow> js_string" where
  "or_else a b = (if a = [] then b else a)"

text \<open>
  The first part of \<open>validateImage\<close>, up to the alt text check: the image record, whether
  it was pushed to \<open>failedImages\<close>, and whether \<open>loadedImages\<close> was incremented.
\<close>

definition check_loaded :: "(js_string \<rightharpoonup> nat) \<Rightarrow> (js_string \<Rightarrow> fetch_outcome) \<Rightarrow> image \<Rightarrow> imageInfo \<times> bool \<times> bool" where
  "check_loaded imageResponses probe img =
     (let imageInfo = \<lparr> ii_src = or_else (src img) (currentSrc img), ii_alt = alt img,
            ii_width = width img, ii_height = height img, ii_loaded = False,
            ii_status = None, ii_error = None \<rparr>
      in if complete img \<and> width img > 0 \<and> height img > 0 then
           (imageInfo\<lparr> ii_loaded := True \<rparr>, False, True)
         else
           (case (case imageResponses (src img) of Some st \<Rightarrow> Some st
                  | None \<Rightarrow> imageResponses (currentSrc img)) of
              Some status \<Rightarrow>
                if status = 200 then
                  (imageInfo\<lparr> ii_status := Some status, ii_loaded := True \<rparr>, False, True)
                else
                  (imageInfo\<lparr> ii_status := Some status, ii_loaded := False,
                     ii_error := Some (Http status) \<rparr>, True, False)
            | None \<Rightarrow>
                (case probe_evaluate (probe (or_else (src img) (currentSrc img))) of
                   Inr response \<Rightarrow>
                     if pr_ok response \<and> pr_status response = 200 then
                       (imageInfo\<lparr> ii_loaded := True, ii_status := Some 200 \<rparr>, False, True)
                     else
                       (imageInfo\<lparr> ii_loaded := False, ii_status := Some (pr_status response),
                          ii_error := Some (case pr_error response of
                              None \<Rightarrow> Http (pr_status response)
                            | Some m \<Rightarrow> if m = [] then Http (pr_status response) else Message m) \<rparr>,
                        True, False)
                 | Inl message \<Rightarrow>
                     (imageInfo\<lparr> ii_loaded := False, ii_error := Some (Message message) \<rparr>,
                      True, False))))"

text \<open>
  \<open>validateImage\<close>. The record pushed to \<open>failedImages\<close> in the first part is the
  object whose \<open>error\<close> the dimension check overwrites afterwards, so the entry of
  \<open>failedImages\<close> is the final record. The dimension check pushes the record unless
  \<open>failedImages\<close> has an entry with the same \<open>src\<close>, which is the case when the record
  itself was pushed before.
\<close>

definition validateImage :: "(js_string \<rightharpoonup> nat) \<Rightarrow> (js_string \<Rightarrow> fetch_outcome) \<Rightarrow> image \<Rightarrow> image_results \<Rightarrow> image_results" where
  "validateImage imageResponses probe img r =
     (let (info1, pushed, counted) = check_loaded imageResponses probe img;
          r1 = (if counted then r\<lparr> loadedImages := loadedImages r + 1 \<rparr> else r);
          r2 = (if (alt img = [] \<or> length (trim (alt img)) = 0) \<and>
                   width img > 50 \<and> height img > 50 \<and> \<not> startsWith (src img) (js ''data:'')
                then r1\<lparr> missingAltText := missingAltText r1 @
                       [\<lparr> ae_src = or_else (src img) (currentSrc img), ae_width = width img,
                          ae_height = height img \<rparr>] \<rparr>
                else r1);
          zero = (width img = 0 \<or> height img = 0);
          imageInfo = (if zero then info1\<lparr> ii_error := Some Zero_dimensions \<rparr> else info1);
          known = (pushed \<or> list_ex (\<lambda>f. ii_src f = ii_src imageInfo) (failedImages r2));
          r3 = (if pushed \<or> (zero \<and> \<not> known)
                then r2\<lparr> failedImages := failedImages r2 @ [imageInfo] \<rparr> else r2)
      in r3\<lparr> images := images r3 @ [imageInfo] \<rparr>)"

text \<open>
  The page, as the image validator sees it: the images of the first enumeration, the
  map the response listener has filled, the probe, \<open>document.body.scrollHeight\<close>, the
  images enumerated after scrolling to an offset and waiting (a throw of the scroll or
  of the enumeration is \<open>Inl\<close>), and the scroll back to the top.
\<close>

record image_page =
  getAllImages :: "image list eval"
  imageResponses :: "js_string \<rightharpoonup> nat"
  probe :: "js_string \<Rightarrow> fetch_outcome"
  scrollHeight :: "nat eval"
  afterScroll :: "nat \<Rightarrow> image list eval"
  scrollTop :: "unit eval"

text \<open>
  The \<open>for\<close> loop of \<open>checkLazyLoadedImages\<close>, from offset \<open>scroll\<close>; the second
  component is the exception that left the loop, if any. The loop advances by
  \<open>viewportHeight\<close>; a viewport height of zero is treated by \<open>checkLazyLoadedImages\<close>.
\<close>

function scroll_loop :: "image_page \<Rightarrow> nat \<Rightarrow> nat \<Rightarrow> nat \<Rightarrow> image_results \<Rightarrow> image_results \<times> js_string option" where
  "scroll_loop pg viewportHeight sh scroll r =
     (if scroll < sh \<and> 0 < viewportHeight then
        (case afterScroll pg scroll of
           Inl error \<Rightarrow> (r, Some error)
         | Inr newImages \<Rightarrow>
             scroll_loop pg viewportHeight sh (scroll + viewportHeight)
               (if length newImages > totalImages r
                then fold (validateImage Map.empty (probe pg)) (drop (totalImages r) newImages) r
                else r))
      else (r, None))"
  by pat_completeness auto
termination
  by (relation "measure (\<lambda>(pg, viewportHeight, sh, scroll, r). sh - scroll)") auto

declare scroll_loop.simps [simp del]

definition lazy_warning :: "js_string \<Rightarrow> image_results \<Rightarrow> image_results" where
  "lazy_warning error r =
     r\<lparr> im_warnings := im_warnings r @ [js ''Error checking lazy-loaded images: '' @ error] \<rparr>"

text \<open>
  \<open>checkLazyLoadedImages\<close>. With a viewport height of zero and a positive scroll
  height the offset never advances: the loop ends only by a throw, and otherwise runs
  forever, which is the result \<open>None\<close>.
\<close>

definition checkLazyLoadedImages :: "image_page \<Rightarrow> nat \<Rightarrow> image_results \<Rightarrow> image_results option" where
  "checkLazyLoadedImages pg viewportHeight r =
     (case scrollHeight pg of
        Inl error \<Rightarrow> Some (lazy_warning error r)
      | Inr sh \<Rightarrow>
          if viewportHeight = 0 \<and> 0 < sh then
            (case afterScroll pg 0 of
               Inl error \<Rightarrow> Some (lazy_warning error r)
             | Inr _ \<Rightarrow> None)
          else
            (case scroll_loop pg viewportHeight sh 0 r of
               (r1, Some error) \<Rightarrow> Some (lazy_warning error r1)
             | (r1, None) \<Rightarrow>
                 (case scrollTop pg of
                    Inl error \<Rightarrow> Some (lazy_warning error r1)
                  | Inr _ \<Rightarrow> Some r1)))"

text \<open>The three ways a call can end.\<close>

datatype 'a outcome = Diverges | Throws js_string | Returns (the_result: 'a)

definition validate :: "image_page \<Rightarrow> nat \<Rightarrow> image_results outcome" where
  "validate pg viewportHeight =
     (case getAllImages pg of
        Inl error \<Rightarrow> Throws error
      | Inr imgs \<Rightarrow>
          (let r0 = ImageValidator_init\<lparr> totalImages := length imgs \<rparr>;
               r1 = fold (validateImage (imageResponses pg) (probe pg)) imgs r0
           in case checkLazyLoadedImages pg viewportHeight r1 of
                None \<Rightarrow> Diverges
              | Some r2 \<Rightarrow>
                  Returns (r2\<lparr> im_passed := (failedImages r2 = []),
                     loadedImages := int (totalImages r2) - int (length (failedImages r2)) \<rparr>)))"

section \<open>The runner (src/runner.js)\<close>

text \<open>
  The parts of the configuration the page run reads, and what the browser page does
  during the run: the page as each module sees it, the events delivered to the
  listeners of the error detector until its analysis, the measured load time, the
  platform \<open>detectPlatform\<close> returns (it catches its own faults), and the closing of the
  page.
\<close>

record config =
  cfg_errorTolerance :: errorTolerance
  cfg_viewportHeight :: nat
  cfg_selectors :: "js_string \<rightharpoonup> selectors"

record browser_page =
  bp_page :: page
  bp_images :: image_page
  bp_events :: "event list"
  bp_loadComplete :: "int eval"
  bp_detected :: js_string
  bp_close :: "unit eval"

text \<open>The result object; the three module results start as \<open>{}\<close>, here \<open>None\<close>.\<close>

record page_result =
  res_url :: js_string
  res_platform :: js_string
  overall_passed :: bool
  overall_error :: "js_string option"
  productPage :: "pp_results option"
  res_images :: "image_results option"
  res_errors :: "error_results option"

text \<open>The catch clause of \<open>testProductPage\<close>.\<close>

definition caught :: "js_string \<Rightarrow> page_result \<Rightarrow> page_result" where
  "caught message res = res\<lparr> overall_passed := False, overall_error := Some message \<rparr>"

text \<open>
  The try block with its catch clause. Both navigation attempts catch their own faults
  and leave no trace in the result. The constructor of \<open>ProductPageTester\<close> looks the
  platform up in \<open>config.selectors\<close> and falls back to the \<open>shopify\<close> entry; without
  either, the first test reads a property of \<open>undefined\<close> and throws.
\<close>

definition run_page :: "(js_string \<Rightarrow> js_string) \<Rightarrow> browser_page \<Rightarrow> config \<Rightarrow> page_result \<Rightarrow> page_result outcome" where
  "run_page lower bp cfg result =
     (let platform = (if res_platform result = [] \<or> res_platform result = js ''auto''
                      then bp_detected bp else res_platform result);
          result1 = result\<lparr> res_platform := platform \<rparr>
      in case (case cfg_selectors cfg (lower platform) of Some s \<Rightarrow> Some s
               | None \<Rightarrow> cfg_selectors cfg (js ''shopify'')) of
           None \<Rightarrow> Returns (caught (js ''Cannot read properties of undefined'') result1)
         | Some sel \<Rightarrow>
             (case ProductPageTester_test (bp_page bp) sel of
                Inl message \<Rightarrow> Returns (caught message result1)
              | Inr pp \<Rightarrow>
                  (let result2 = result1\<lparr> productPage := Some pp \<rparr> in
                   case validate (bp_images bp) (cfg_viewportHeight cfg) of
                     Diverges \<Rightarrow> Diverges
                   | Throws message \<Rightarrow> Returns (caught message result2)
                   | Returns im \<Rightarrow>
                       (let result3 = result2\<lparr> res_images := Some im \<rparr>;
                            er = detect (cfg_errorTolerance cfg) lower (bp_loadComplete bp)
                                   (collect (bp_events bp) ErrorDetector_init);
                            result4 = result3\<lparr> res_errors := Some er \<rparr>
                        in Returns (result4\<lparr> overall_passed :=
                             (pp_passed pp \<and> im_passed im \<and> er_passed er) \<rparr>)))))"

text \<open>
  \<open>testProductPage\<close>: \<open>browser.newPage\<close> is outside the try block, and
  \<open>page.close\<close> is in its finally clause; a fault of either leaves the function.
\<close>

definition testProductPage :: "(js_string \<Rightarrow> js_string) \<Rightarrow> browser_page eval \<Rightarrow> js_string \<Rightarrow> config \<Rightarrow> js_string \<Rightarrow> page_result outcome" where
  "testProductPage lower newPage url cfg platform =
     (case newPage of
        Inl message \<Rightarrow> Throws message
      | Inr bp \<Rightarrow>
          (case run_page lower bp cfg
                  \<lparr> res_url = url, res_platform = platform, overall_passed = True,
                    overall_error = None, productPage = None, res_images = None,
                    res_errors = None \<rparr> of
             Diverges \<Rightarrow> Diverges
           | Throws message \<Rightarrow> Throws message
           | Returns res \<Rightarrow>
               (case bp_close bp of
                  Inl message \<Rightarrow> Throws message
                | Inr _ \<Rightarrow> Returns res)))"

section \<open>Derived notions used in the statements\<close>

text \<open>What one event adds to each list and counter that the verdict reads.\<close>

definition ev_console :: "event \<Rightarrow> console_entry list" where
  "ev_console ev = consoleErrors (listener ev ErrorDetector_init)"

definition ev_network :: "event \<Rightarrow> network_entry list" where
  "ev_network ev = networkFailures (listener ev ErrorDetector_init)"

definition ev_resource :: "event \<Rightarrow> resource_entry list" where
  "ev_resource ev = resourceFailures (listener ev ErrorDetector_init)"

definition ev_warnings :: "event \<Rightarrow> nat" where
  "ev_warnings ev = totalWarnings (listener ev ErrorDetector_init)"

text \<open>
  What feeds the two totals of the verdict, event by event. A message is benign when
  its lowered text contains an ignorable pattern, and names a fault when it contains one
  of the four phrases of \<open>analyzeErrors\<close>. An event is a critical signal when it is a
  console error or an uncaught exception whose message is not benign and names a fault,
  or a response with a status of 500 or more, or a response with a status of 400 or
  more for a critical resource. An event is a counted warning when it is a console
  message of type \<open>warning\<close> or a 4xx response for a resource that is not critical:
  these are the two places where the listeners increment \<open>totalWarnings\<close>.
\<close>

definition benign :: "(js_string \<Rightarrow> js_string) \<Rightarrow> js_string \<Rightarrow> bool" where
  "benign lower message =
     list_ex (\<lambda>pattern. js_includes (lower message) pattern) ignorablePatterns"

definition fault_phrase :: "(js_string \<Rightarrow> js_string) \<Rightarrow> js_string \<Rightarrow> bool" where
  "fault_phrase lower message =
     (js_includes (lower message) (js ''uncaught'') \<or>
      js_includes (lower message) (js ''syntax error'') \<or>
      js_includes (lower message) (js ''reference error'') \<or>
      js_includes (lower message) (js ''type error''))"

fun critical_signal :: "(js_string \<Rightarrow> js_string) \<Rightarrow> event \<Rightarrow> bool" where
  "critical_signal lower (ConsoleMsg type text) =
     (type = js ''error'' \<and> \<not> benign lower text \<and> fault_phrase lower text)"
| "critical_signal lower (PageErrorEv message) =
     (\<not> benign lower message \<and> fault_phrase lower message)"
| "critical_signal lower (RequestFailed url method errorText) = False"
| "critical_signal lower (ResponseEv status url method cookies pageUrl) =
     (status \<ge> 500 \<or> (status \<ge> 400 \<and> isCriticalResource url))"

fun counted_warning :: "event \<Rightarrow> bool" where
  "counted_warning (ConsoleMsg type text) = (type = js ''warning'')"
| "counted_warning (PageErrorEv message) = False"
| "counted_warning (RequestFailed url method errorText) = False"
| "counted_warning (ResponseEv status url method cookies pageUrl) =
     (400 \<le> status \<and> status < 500 \<and> \<not> isCriticalResource url)"

text \<open>What one event adds to the critical total after the analysis.\<close>

definition ev_critical :: "(js_string \<Rightarrow> js_string) \<Rightarrow> event \<Rightarrow> nat" where
  "ev_critical lower ev =
     length (filter (\<lambda>e. ce_severity e = Some Critical)
        (map (categorize lower) (filter (\<lambda>error. \<not> ignorable lower error) (ev_console ev))))
     + length (filter (\<lambda>f. ne_severity f = Some Critical) (ev_network ev))
     + length (filter (\<lambda>f. re_severity f = Some Critical) (ev_resource ev))"

text \<open>The console errors that the analysis tags with the severity \<open>warning\<close>.\<close>

definition warning_tagged :: "error_results \<Rightarrow> nat" where
  "warning_tagged r = length (filter (\<lambda>e. ce_severity e = Some WarningSev) (consoleErrors r))"

text \<open>
  The trimmed text of the node a candidate selector matches: \<open>None\<close> when the lookup
  throws or matches no node, or when the text cannot be read or is \<open>null\<close>.
\<close>

definition matched_text :: "(js_string \<Rightarrow> element option eval) \<Rightarrow> js_string \<Rightarrow> js_string option" where
  "matched_text lookup sel =
     (case lookup sel of
        Inr (Some el) \<Rightarrow> (case el_textContent el of Inr (Some raw) \<Rightarrow> Some (trim raw) | _ \<Rightarrow> None)
      | _ \<Rightarrow> None)"

text \<open>A candidate whose evaluation throws: the lookup, or the reading of the text.\<close>

definition candidate_throws :: "(js_string \<Rightarrow> element option eval) \<Rightarrow> js_string \<Rightarrow> bool" where
  "candidate_throws lookup sel =
     (case lookup sel of
        Inl _ \<Rightarrow> True
      | Inr None \<Rightarrow> False
      | Inr (Some el) \<Rightarrow> (case el_textContent el of Inl _ \<Rightarrow> True | Inr _ \<Rightarrow> False))"

text \<open>
  What the add-to-cart loop reads of the node a candidate matches, when the lookup and
  both evaluations return: whether its bounding rectangle has a positive width and
  height, and whether it is not disabled.
\<close>

definition inspected :: "page \<Rightarrow> js_string \<Rightarrow> (bool \<times> bool) option" where
  "inspected pg sel =
     (case query pg sel of
        Inr (Some el) \<Rightarrow>
          (case el_rect el of
             Inr (w, h) \<Rightarrow>
               (case el_disabled el of
                  Inr disabled \<Rightarrow> Some (w > 0 \<and> h > 0, \<not> disabled)
                | Inl _ \<Rightarrow> None)
           | Inl _ \<Rightarrow> None)
      | _ \<Rightarrow> None)"

text \<open>The selectors of the price test: the configured list, or the fallback.\<close>

definition price_selectors :: "selectors \<Rightarrow> js_string list" where
  "price_selectors sel = (case productPrice sel of Some l \<Rightarrow> l | None \<Rightarrow> defaultPriceSelectors)"

text \<open>The URL under which \<open>validateImage\<close> records an image: \<open>img.src || img.currentSrc\<close>.\<close>

definition recorded_src :: "image \<Rightarrow> js_string" where
  "recorded_src img = or_else (src img) (currentSrc img)"

text \<open>
  Whether the load check of \<open>validateImage\<close> pushes the image to \<open>failedImages\<close>, and
  the record \<open>validateImage\<close> appends to \<open>results.images\<close>.
\<close>

definition load_failed :: "(js_string \<rightharpoonup> nat) \<Rightarrow> (js_string \<Rightarrow> fetch_outcome) \<Rightarrow> image \<Rightarrow> bool" where
  "load_failed rs pr img = fst (snd (check_loaded rs pr img))"

definition image_record :: "(js_string \<rightharpoonup> nat) \<Rightarrow> (js_string \<Rightarrow> fetch_outcome) \<Rightarrow> image \<Rightarrow> imageInfo" where
  "image_record rs pr img =
     (if width img = 0 \<or> height img = 0
      then (fst (check_loaded rs pr img))\<lparr> ii_error := Some Zero_dimensions \<rparr>
      else fst (check_loaded rs pr img))"

text \<open>
  The images that \<open>validate\<close> hands to \<open>validateImage\<close>: those of the first
  enumeration, then, at every step of the sweep that is reached, the images at the
  indexes from \<open>totalImages\<close> on.
\<close>

function sweep_validated :: "image_page \<Rightarrow> nat \<Rightarrow> nat \<Rightarrow> nat \<Rightarrow> nat \<Rightarrow> image list" where
  "sweep_validated pg viewportHeight sh scroll known =
     (if scroll < sh \<and> 0 < viewportHeight then
        (case afterScroll pg scroll of
           Inl error \<Rightarrow> []
         | Inr newImages \<Rightarrow>
             (if length newImages > known then drop known newImages else []) @
             sweep_validated pg viewportHeight sh (scroll + viewportHeight) known)
      else [])"
  by pat_completeness auto
termination
  by (relation "measure (\<lambda>(pg, viewportHeight, sh, scroll, known). sh - scroll)") auto

declare sweep_validated.simps [simp del]

definition processed :: "image_page \<Rightarrow> nat \<Rightarrow> image list" where
  "processed pg viewportHeight =
     (case getAllImages pg of
        Inl error \<Rightarrow> []
      | Inr imgs \<Rightarrow>
          imgs @ (case scrollHeight pg of
                    Inl error \<Rightarrow> []
                  | Inr sh \<Rightarrow> sweep_validated pg viewportHeight sh 0 (length imgs)))"

section \<open>Example inputs\<close>

definition five_warnings :: "event list" where
  "five_warnings = replicate 5 (ConsoleMsg (js ''warning'') (js ''deprecated api''))"

definition six_warnings :: "event list" where
  "six_warnings = replicate 6 (ConsoleMsg (js ''warning'') (js ''deprecated api''))"

definition one_critical :: "event list" where
  "one_critical = [ConsoleMsg (js ''error'') (js ''Uncaught TypeError: x is not a function'')]"

definition six_warning_errors :: "event list" where
  "six_warning_errors = replicate 6 (ConsoleMsg (js ''error'') (js ''Failed to load resource''))"

definition analytics_message :: js_string where
  "analytics_message = js ''Uncaught Error: Google-Analytics blocked''"

definition tracking_message :: js_string where
  "tracking_message = js ''Uncaught ReferenceError: Tracking is not defined''"

definition node :: "string \<Rightarrow> element" where
  "node t = \<lparr> el_textContent = Inr (Some (js t)), el_rect = Inr (120, 40), el_disabled = Inr False \<rparr>"

definition shop_page :: page where
  "shop_page = \<lparr>
     query = (\<lambda>s. if s = js ''h1[bad'' then Inl (js ''SyntaxError'')
                 else if s = js ''h1'' then Inr (Some (node '' Blue shirt ''))
                 else if s = js ''.teaser'' then Inr (Some (node ''Nice''))
                 else if s = js ''.description'' then Inr (Some (node ''A blue cotton shirt''))
                 else if s = js ''button'' then Inr (Some ((node ''Add to cart'')\<lparr> el_disabled := Inr True \<rparr>))
                 else Inr None),
     waitForSelector = (\<lambda>s. if s = js ''.price'' then Inr (Some (node ''$19.99''))
                 else Inl (js ''TimeoutError'')),
     queryAll = (\<lambda>s. Inr 0),
     pageTitle = Inr (js ''Blue shirt''),
     metaContent = Inr (js ''A blue cotton shirt''),
     loadWait = Inr () \<rparr>"

definition shop_selectors :: selectors where
  "shop_selectors = \<lparr>
     productTitle = Some [js ''h1[bad'', js ''h1'', js ''.title''],
     productPrice = Some [js ''.sale'', js ''.price''],
     addToCart = Some [js ''button''],
     productDescription = Some [js ''.teaser'', js ''.description''],
     productImage = Some [js ''img''],
     productVariant = Some [js ''select''] \<rparr>"

definition banner_failed :: image where
  "banner_failed = \<lparr> src = js ''https://shop.example/banner.jpg'', currentSrc = js ''https://shop.example/banner-2x.jpg'',
     alt = js ''Banner'', width = 640, height = 480, complete = False, loading = js ''eager'' \<rparr>"

definition banner_empty :: image where
  "banner_empty = \<lparr> src = js ''https://shop.example/banner.jpg'', currentSrc = js ''https://shop.example/banner-1x.jpg'',
     alt = js ''Banner'', width = 0, height = 0, complete = True, loading = js ''eager'' \<rparr>"

definition banner_responses :: "js_string \<rightharpoonup> nat" where
  "banner_responses = [js ''https://shop.example/banner-2x.jpg'' \<mapsto> 404, js ''https://shop.example/banner-1x.jpg'' \<mapsto> 200]"

definition probe_ok :: "js_string \<Rightarrow> fetch_outcome" where
  "probe_ok url = Fetch_resolves 200 True"

definition probe_404 :: "js_string \<Rightarrow> fetch_outcome" where
  "probe_404 url = Fetch_resolves 404 False"

definition banner_page :: image_page where
  "banner_page = \<lparr> getAllImages = Inr [banner_failed, banner_empty],
     imageResponses = banner_responses, probe = probe_ok, scrollHeight = Inr 0,
     afterScroll = (\<lambda>y. Inr [banner_failed, banner_empty]), scrollTop = Inr () \<rparr>"

definition hero :: image where
  "hero = \<lparr> src = js ''https://shop.example/hero.jpg'', currentSrc = js ''https://shop.example/hero.jpg'', alt = js ''Hero'',
     width = 800, height = 600, complete = True, loading = js ''eager'' \<rparr>"

definition lazy_photo :: image where
  "lazy_photo = \<lparr> src = js ''https://shop.example/lazy.jpg'', currentSrc = js ''https://shop.example/lazy.jpg'', alt = js ''Detail'',
     width = 400, height = 300, complete = False, loading = js ''lazy'' \<rparr>"

text \<open>
  A page three viewports high whose second image appears with the first scroll step.
\<close>

definition lazy_page :: image_page where
  "lazy_page = \<lparr> getAllImages = Inr [hero], imageResponses = Map.empty, probe = probe_ok,
     scrollHeight = Inr 3000, afterScroll = (\<lambda>y. Inr [hero, lazy_photo]),
     scrollTop = Inr () \<rparr>"

text \<open>
  A page with no image at first, on which scrolling reveals one image that does not
  load.
\<close>

definition broken_lazy_page :: image_page where
  "broken_lazy_page = \<lparr> getAllImages = Inr [], imageResponses = Map.empty, probe = probe_404,
     scrollHeight = Inr 900, afterScroll = (\<lambda>y. Inr [lazy_photo]), scrollTop = Inr () \<rparr>"

definition lazy_empty :: image where
  "lazy_empty = \<lparr> src = js ''https://shop.example/zoom.jpg'',
     currentSrc = js ''https://shop.example/zoom.jpg'', alt = js ''Zoom'',
     width = 0, height = 0, complete = True, loading = js ''lazy'' \<rparr>"

text \<open>A page on which scrolling reveals an image of width and height zero.\<close>

definition empty_lazy_page :: image_page where
  "empty_lazy_page = \<lparr> getAllImages = Inr [hero], imageResponses = Map.empty, probe = probe_ok,
     scrollHeight = Inr 900, afterScroll = (\<lambda>y. Inr [hero, lazy_empty]), scrollTop = Inr () \<rparr>"

definition shop_config :: config where
  "shop_config = \<lparr> cfg_errorTolerance = defaultErrorTolerance, cfg_viewportHeight = 1080,
     cfg_selectors = [js ''shopify'' \<mapsto> shop_selectors] \<rparr>"

definition shop_browser_page :: browser_page where
  "shop_browser_page = \<lparr> bp_page = shop_page, bp_images = lazy_page,
     bp_events = five_warnings, bp_loadComplete = Inr 1200, bp_detected = js ''shopify'',
     bp_close = Inr () \<rparr>"

definition shop_run :: "page_result outcome" where
  "shop_run = testProductPage ascii_lower (Inr shop_browser_page) (js ''https://shop.example/p/1'')
     shop_config (js ''auto'')"



section \<open>Lemmas on strings\<close>

lemma js_includes_iff: "js_includes s p \<longleftrightarrow> (\<exists>a b. s = a @ p @ b)"
proof (induction s)
  case Nil
  then show ?case by auto
next
  case (Cons c cs)
  have "startsWith (c # cs) p \<longleftrightarrow> (\<exists>b. c # cs = p @ b)"
    unfolding startsWith_def by (metis append_eq_conv_conj)
  moreover have "(\<exists>a b. c # cs = a @ p @ b) \<longleftrightarrow> (\<exists>b. c # cs = p @ b) \<or> (\<exists>a b. cs = a @ p @ b)"
    by (metis append_Nil append_eq_Cons_conv)
  ultimately show ?case using Cons.IH by simp
qed

section \<open>The error detector\<close>

lemma checkCookie_fold_fields:
  "consoleErrors (fold (checkCookie u p) cs r) = consoleErrors r"
  "networkFailures (fold (checkCookie u p) cs r) = networkFailures r"
  "resourceFailures (fold (checkCookie u p) cs r) = resourceFailures r"
  "totalWarnings (fold (checkCookie u p) cs r) = totalWarnings r"
  by (induction cs arbitrary: r; simp add: checkCookie_def)+

lemma checkSecurityIssues_fields:
  "consoleErrors (checkSecurityIssues u cs p r) = consoleErrors r"
  "networkFailures (checkSecurityIssues u cs p r) = networkFailures r"
  "resourceFailures (checkSecurityIssues u cs p r) = resourceFailures r"
  "totalWarnings (checkSecurityIssues u cs p r) = totalWarnings r"
  by (simp_all add: checkSecurityIssues_def Let_def checkCookie_fold_fields)

lemma listener_fields:
  "consoleErrors (listener ev r) = consoleErrors r @ ev_console ev"
  "networkFailures (listener ev r) = networkFailures r @ ev_network ev"
  "resourceFailures (listener ev r) = resourceFailures r @ ev_resource ev"
  "totalWarnings (listener ev r) = totalWarnings r + ev_warnings ev"
  by (cases ev; simp add: ev_console_def ev_network_def ev_resource_def ev_warnings_def
        ErrorDetector_init_def Let_def checkSecurityIssues_fields)+

lemma collect_fields:
  "consoleErrors (collect evs r) = consoleErrors r @ concat (map ev_console evs)"
  "networkFailures (collect evs r) = networkFailures r @ concat (map ev_network evs)"
  "resourceFailures (collect evs r) = resourceFailures r @ concat (map ev_resource evs)"
  "totalWarnings (collect evs r) = totalWarnings r + sum_list (map ev_warnings evs)"
  unfolding collect_def
  by (induction evs arbitrary: r; simp add: listener_fields)+

lemma detect_fields:
  "consoleErrors (detect tol lower perf r) =
     map (categorize lower) (filter (\<lambda>error. \<not> ignorable lower error) (consoleErrors r))"
  "networkFailures (detect tol lower perf r) = networkFailures r"
  "resourceFailures (detect tol lower perf r) = resourceFailures r"
  "totalWarnings (detect tol lower perf r) = totalWarnings r"
  by (simp_all add: detect_def analyzeErrors_def checkPerformanceMetrics_def Let_def split: sum.splits)

lemma detect_totalCritical:
  "totalCritical (detect tol lower perf r) =
     length (filter (\<lambda>e. ce_severity e = Some Critical) (consoleErrors (detect tol lower perf r)))
     + criticalNetworkFailures r + criticalResourceFailures r"
  by (simp add: totalCritical_def criticalErrors_def criticalNetworkFailures_def
       criticalResourceFailures_def detect_fields)

lemma detect_passed:
  "er_passed (detect tol lower perf r) =
     (int (totalCritical (detect tol lower perf r)) \<le> critical tol \<and>
      int (totalWarnings (detect tol lower perf r)) \<le> warning tol)"
proof -
  have "totalCritical (r2\<lparr> er_passed := b \<rparr>) = totalCritical r2" for r2 :: error_results and b
    by (simp add: totalCritical_def criticalErrors_def criticalNetworkFailures_def
       criticalResourceFailures_def)
  then show ?thesis
    by (auto simp add: detect_def Let_def checkErrorTolerance_def)
qed

lemma ignorable_event_dropped:
  assumes c: "ev_console ev = [e]" and i: "ignorable lower e"
    and n: "ev_network ev = []" and s: "ev_resource ev = []" and w: "ev_warnings ev = 0"
  shows "consoleErrors (detect tol lower perf (collect (pre @ ev # post) r0)) =
           consoleErrors (detect tol lower perf (collect (pre @ post) r0))"
    and "totalCritical (detect tol lower perf (collect (pre @ ev # post) r0)) =
           totalCritical (detect tol lower perf (collect (pre @ post) r0))"
    and "totalWarnings (detect tol lower perf (collect (pre @ ev # post) r0)) =
           totalWarnings (detect tol lower perf (collect (pre @ post) r0))"
    and "er_passed (detect tol lower perf (collect (pre @ ev # post) r0)) =
           er_passed (detect tol lower perf (collect (pre @ post) r0))"
proof -
  show 1: "consoleErrors (detect tol lower perf (collect (pre @ ev # post) r0)) =
           consoleErrors (detect tol lower perf (collect (pre @ post) r0))"
    using c i by (simp add: detect_fields collect_fields)
  have 2: "criticalNetworkFailures (collect (pre @ ev # post) r0) = criticalNetworkFailures (collect (pre @ post) r0)"
    using n by (simp add: criticalNetworkFailures_def collect_fields)
  have 3: "criticalResourceFailures (collect (pre @ ev # post) r0) = criticalResourceFailures (collect (pre @ post) r0)"
    using s by (simp add: criticalResourceFailures_def collect_fields)
  show 4: "totalCritical (detect tol lower perf (collect (pre @ ev # post) r0)) =
           totalCritical (detect tol lower perf (collect (pre @ post) r0))"
    by (simp only: detect_totalCritical 1 2 3)
  show 5: "totalWarnings (detect tol lower perf (collect (pre @ ev # post) r0)) =
           totalWarnings (detect tol lower perf (collect (pre @ post) r0))"
    using w by (simp add: detect_fields collect_fields)
  show "er_passed (detect tol lower perf (collect (pre @ ev # post) r0)) =
           er_passed (detect tol lower perf (collect (pre @ post) r0))"
    by (simp only: detect_passed 4 5)
qed

lemma survivors_not_ignorable:
  assumes "e \<in> set (consoleErrors (detect tol lower perf r))" and "p \<in> set ignorablePatterns"
  shows "\<not> js_includes (lower (ce_message e)) p"
  using assms
  by (auto simp add: detect_fields ignorable_def categorize_def Let_def list_ex_iff)

lemma ignorable_by_pattern:
  assumes "p \<in> set ignorablePatterns" and "js_includes (lower msg) p"
  shows "ignorable lower \<lparr> ce_type = k, ce_message = msg, ce_severity = sv \<rparr>"
  using assms by (auto simp add: ignorable_def list_ex_iff)

lemma google_analytics_pattern: "js ''google-analytics'' \<in> set ignorablePatterns"
  by (simp add: ignorablePatterns_def)

text \<open>The totals of the verdict, counted on the event stream.\<close>

lemma count_if: "sum_list (map (\<lambda>x. if P x then 1 else 0) xs) = length (filter P xs)"
  by (induction xs) simp_all

lemma ev_warnings_counted: "ev_warnings ev = (if counted_warning ev then 1 else 0)"
  by (cases ev)
     (auto simp add: ev_warnings_def ErrorDetector_init_def checkSecurityIssues_fields Let_def js_def)

lemma ev_critical_signal: "ev_critical lower ev = (if critical_signal lower ev then 1 else 0)"
  by (cases ev)
     (auto simp add: ev_critical_def ev_console_def ev_network_def ev_resource_def
        ErrorDetector_init_def checkSecurityIssues_fields Let_def
        ignorable_def benign_def categorize_def fault_phrase_def)

lemma filter_concat_length:
  "length (filter P (concat xss)) = sum_list (map (\<lambda>xs. length (filter P xs)) xss)"
  by (induction xss) simp_all

lemma collected_totals:
  "totalWarnings (detect tol lower perf (collect evs ErrorDetector_init)) =
     length (filter counted_warning evs)"
  "totalCritical (detect tol lower perf (collect evs ErrorDetector_init)) =
     length (filter (critical_signal lower) evs)"
proof -
  show "totalWarnings (detect tol lower perf (collect evs ErrorDetector_init)) =
     length (filter counted_warning evs)"
  proof -
    have h: "ev_warnings = (\<lambda>ev. if counted_warning ev then 1 else 0)"
      by (rule ext) (rule ev_warnings_counted)
    have "sum_list (map ev_warnings evs) = length (filter counted_warning evs)"
      unfolding h by (rule count_if)
    then show ?thesis
      by (simp add: detect_fields collect_fields ErrorDetector_init_def)
  qed
  have "totalCritical (detect tol lower perf (collect evs ErrorDetector_init)) =
      sum_list (map (ev_critical lower) evs)"
    by (induction evs rule: rev_induct)
       (simp_all add: detect_totalCritical detect_fields collect_fields ErrorDetector_init_def
          criticalNetworkFailures_def criticalResourceFailures_def ev_critical_def)
  then show "totalCritical (detect tol lower perf (collect evs ErrorDetector_init)) =
     length (filter (critical_signal lower) evs)"
  proof -
    assume t: "totalCritical (detect tol lower perf (collect evs ErrorDetector_init)) =
      sum_list (map (ev_critical lower) evs)"
    have h: "ev_critical lower = (\<lambda>ev. if critical_signal lower ev then 1 else 0)"
      by (rule ext) (rule ev_critical_signal)
    have "sum_list (map (ev_critical lower) evs) = length (filter (critical_signal lower) evs)"
      unfolding h by (rule count_if)
    then show ?thesis using t by simp
  qed
qed

lemma verdict_ignores_load_time:
  "er_passed (detect tol lower perf r) = er_passed (detect tol lower perf' r)"
  unfolding detect_passed detect_totalCritical by (simp add: detect_fields)

text \<open>
  C2, as stated, fails: six console errors that the analysis tags as warnings, and a
  slow page load, leave the warning counter at zero. The finalized results hold no
  critical signal and seven warnings, and the verdict under the tolerances 0 and 5 is
  \<open>passed\<close>.
\<close>

theorem warning_tagged_errors_pass_counterexample:
  "critical defaultErrorTolerance = 0
   \<and> warning defaultErrorTolerance = 5
   \<and> totalCritical (detect defaultErrorTolerance ascii_lower (Inr 6000)
        (collect six_warning_errors ErrorDetector_init)) = 0
   \<and> warning_tagged (detect defaultErrorTolerance ascii_lower (Inr 6000)
        (collect six_warning_errors ErrorDetector_init)) = 6
   \<and> length (performanceWarnings (detect defaultErrorTolerance ascii_lower (Inr 6000)
        (collect six_warning_errors ErrorDetector_init))) = 1
   \<and> totalWarnings (detect defaultErrorTolerance ascii_lower (Inr 6000)
        (collect six_warning_errors ErrorDetector_init)) = 0
   \<and> er_passed (detect defaultErrorTolerance ascii_lower (Inr 6000)
        (collect six_warning_errors ErrorDetector_init))"
  by code_simp

text \<open>
  C2, amended: the verdict is \<open>passed\<close> exactly when the critical total is at most the
  critical tolerance and the counter \<open>totalWarnings\<close> is at most the warning tolerance.
  On the events the listeners have received, the critical total is the number of
  critical signals, and \<open>totalWarnings\<close> is the number of console messages of type
  \<open>warning\<close> and of 4xx responses for resources that are not critical; console errors
  tagged as warnings and the slow-load warning are not counted, and the verdict does
  not depend on the load time. With tolerances 0 and 5: no critical signal and five
  counted warnings pass, six counted warnings fail, one critical signal fails.
\<close>

theorem tolerance_verdict:
  "checkErrorTolerance tol r =
     (int (totalCritical r) \<le> critical tol \<and> int (totalWarnings r) \<le> warning tol)
   \<and> er_passed (detect tol lower perf r0) =
     (int (totalCritical (detect tol lower perf r0)) \<le> critical tol \<and>
      int (totalWarnings (detect tol lower perf r0)) \<le> warning tol)
   \<and> totalCritical (detect tol lower perf (collect evs ErrorDetector_init)) =
       length (filter (critical_signal lower) evs)
   \<and> totalWarnings (detect tol lower perf (collect evs ErrorDetector_init)) =
       length (filter counted_warning evs)
   \<and> er_passed (detect tol lower perf (collect evs ErrorDetector_init)) =
       (int (length (filter (critical_signal lower) evs)) \<le> critical tol \<and>
        int (length (filter counted_warning evs)) \<le> warning tol)
   \<and> er_passed (detect tol lower perf r0) = er_passed (detect tol lower perf' r0)
   \<and> (critical tol = 0 \<and> warning tol = 5 \<longrightarrow>
        (length (filter (critical_signal lower) evs) = 0 \<and>
         length (filter counted_warning evs) = 5
           \<longrightarrow> er_passed (detect tol lower perf (collect evs ErrorDetector_init))) \<and>
        (length (filter (critical_signal lower) evs) = 0 \<and>
         length (filter counted_warning evs) = 6
           \<longrightarrow> \<not> er_passed (detect tol lower perf (collect evs ErrorDetector_init))) \<and>
        (length (filter (critical_signal lower) evs) = 1 \<and>
         length (filter counted_warning evs) = 0
           \<longrightarrow> \<not> er_passed (detect tol lower perf (collect evs ErrorDetector_init))))"
proof -
  have 1: "checkErrorTolerance tol r =
     (int (totalCritical r) \<le> critical tol \<and> int (totalWarnings r) \<le> warning tol)"
    by (auto simp add: checkErrorTolerance_def)
  note 2 = detect_passed [of tol lower perf r0]
  note 3 = collected_totals(2) [of tol lower perf evs]
  note 4 = collected_totals(1) [of tol lower perf evs]
  have 5: "er_passed (detect tol lower perf (collect evs ErrorDetector_init)) =
       (int (length (filter (critical_signal lower) evs)) \<le> critical tol \<and>
        int (length (filter counted_warning evs)) \<le> warning tol)"
    unfolding detect_passed 3 4 by simp
  note 6 = verdict_ignores_load_time [of tol lower perf r0 perf']
  have 7: "critical tol = 0 \<and> warning tol = 5 \<longrightarrow>
        (length (filter (critical_signal lower) evs) = 0 \<and>
         length (filter counted_warning evs) = 5
           \<longrightarrow> er_passed (detect tol lower perf (collect evs ErrorDetector_init))) \<and>
        (length (filter (critical_signal lower) evs) = 0 \<and>
         length (filter counted_warning evs) = 6
           \<longrightarrow> \<not> er_passed (detect tol lower perf (collect evs ErrorDetector_init))) \<and>
        (length (filter (critical_signal lower) evs) = 1 \<and>
         length (filter counted_warning evs) = 0
           \<longrightarrow> \<not> er_passed (detect tol lower perf (collect evs ErrorDetector_init)))"
    unfolding 5 by simp
  show ?thesis by (intro conjI 1 2 3 4 5 6 7)
qed

theorem tolerance_verdict_witness:
  "critical defaultErrorTolerance = 0 \<and> warning defaultErrorTolerance = 5
   \<and> length (filter (critical_signal ascii_lower) five_warnings) = 0
   \<and> length (filter counted_warning five_warnings) = 5
   \<and> er_passed (detect defaultErrorTolerance ascii_lower (Inr 1200)
        (collect five_warnings ErrorDetector_init))
   \<and> length (filter (critical_signal ascii_lower) six_warnings) = 0
   \<and> length (filter counted_warning six_warnings) = 6
   \<and> \<not> er_passed (detect defaultErrorTolerance ascii_lower (Inr 1200)
        (collect six_warnings ErrorDetector_init))
   \<and> length (filter (critical_signal ascii_lower) one_critical) = 1
   \<and> length (filter counted_warning one_critical) = 0
   \<and> \<not> er_passed (detect defaultErrorTolerance ascii_lower (Inr 1200)
        (collect one_critical ErrorDetector_init))"
proof -
  have t: "critical defaultErrorTolerance = 0 \<and> warning defaultErrorTolerance = 5"
    by (simp add: defaultErrorTolerance_def)
  have a: "length (filter (critical_signal ascii_lower) five_warnings) = 0
      \<and> length (filter counted_warning five_warnings) = 5"
    by code_simp
  have b: "length (filter (critical_signal ascii_lower) six_warnings) = 0
      \<and> length (filter counted_warning six_warnings) = 6"
    by code_simp
  have c: "length (filter (critical_signal ascii_lower) one_critical) = 1
      \<and> length (filter counted_warning one_critical) = 0"
    by code_simp
  show ?thesis
    using t a b c
      tolerance_verdict [where tol = defaultErrorTolerance and lower = ascii_lower
        and perf = "Inr 1200" and evs = five_warnings]
      tolerance_verdict [where tol = defaultErrorTolerance and lower = ascii_lower
        and perf = "Inr 1200" and evs = six_warnings]
      tolerance_verdict [where tol = defaultErrorTolerance and lower = ascii_lower
        and perf = "Inr 1200" and evs = one_critical]
    by simp
qed

text \<open>
  C7: a console error whose lowered message contains \<open>google-analytics\<close> is removed by
  the analysis: with or without it in the event stream the console errors, the
  critical total, the warning counter and the verdict are the same, and no console
  error that survives the analysis contains the pattern.
\<close>

theorem google_analytics_error_excluded:
  assumes "js_includes (lower message) (js ''google-analytics'')"
  shows "consoleErrors (detect tol lower perf (collect (pre @ ConsoleMsg (js ''error'') message # post) r0)) =
           consoleErrors (detect tol lower perf (collect (pre @ post) r0))
       \<and> totalCritical (detect tol lower perf (collect (pre @ ConsoleMsg (js ''error'') message # post) r0)) =
           totalCritical (detect tol lower perf (collect (pre @ post) r0))
       \<and> totalWarnings (detect tol lower perf (collect (pre @ ConsoleMsg (js ''error'') message # post) r0)) =
           totalWarnings (detect tol lower perf (collect (pre @ post) r0))
       \<and> er_passed (detect tol lower perf (collect (pre @ ConsoleMsg (js ''error'') message # post) r0)) =
           er_passed (detect tol lower perf (collect (pre @ post) r0))
       \<and> list_all (\<lambda>e. \<not> js_includes (lower (ce_message e)) (js ''google-analytics''))
           (consoleErrors (detect tol lower perf (collect (pre @ ConsoleMsg (js ''error'') message # post) r0)))"
proof -
  let ?ev = "ConsoleMsg (js ''error'') message"
  let ?e = "\<lparr> ce_type = Console_error, ce_message = message, ce_severity = None \<rparr>"
  have c: "ev_console ?ev = [?e]" by (simp add: ev_console_def ErrorDetector_init_def)
  have n: "ev_network ?ev = []" by (simp add: ev_network_def ErrorDetector_init_def)
  have s: "ev_resource ?ev = []" by (simp add: ev_resource_def ErrorDetector_init_def)
  have w: "ev_warnings ?ev = 0" by (simp add: ev_warnings_def ErrorDetector_init_def)
  have i: "ignorable lower ?e"
    using ignorable_by_pattern [of "js ''google-analytics''" lower message Console_error None]
      google_analytics_pattern assms by simp
  have l: "list_all (\<lambda>e. \<not> js_includes (lower (ce_message e)) (js ''google-analytics''))
           (consoleErrors (detect tol lower perf (collect (pre @ ?ev # post) r0)))"
    using survivors_not_ignorable [OF _ google_analytics_pattern]
    by (auto simp add: list_all_iff)
  show ?thesis
    using ignorable_event_dropped [OF c i n s w, of tol perf pre post r0] l by simp
qed

theorem google_analytics_error_excluded_witness:
  "js_includes (ascii_lower analytics_message) (js ''google-analytics'')
   \<and> consoleErrors (detect defaultErrorTolerance ascii_lower (Inr 1200)
        (collect ([] @ ConsoleMsg (js ''error'') analytics_message # []) ErrorDetector_init)) = []
   \<and> totalCritical (detect defaultErrorTolerance ascii_lower (Inr 1200)
        (collect ([] @ ConsoleMsg (js ''error'') analytics_message # []) ErrorDetector_init)) = 0
   \<and> totalWarnings (detect defaultErrorTolerance ascii_lower (Inr 1200)
        (collect ([] @ ConsoleMsg (js ''error'') analytics_message # []) ErrorDetector_init)) = 0
   \<and> er_passed (detect defaultErrorTolerance ascii_lower (Inr 1200)
        (collect ([] @ ConsoleMsg (js ''error'') analytics_message # []) ErrorDetector_init))"
proof -
  have h: "js_includes (ascii_lower analytics_message) (js ''google-analytics'')"
    by code_simp
  have e: "consoleErrors (detect defaultErrorTolerance ascii_lower (Inr 1200) (collect ([] @ []) ErrorDetector_init)) = []
    \<and> totalCritical (detect defaultErrorTolerance ascii_lower (Inr 1200) (collect ([] @ []) ErrorDetector_init)) = 0
    \<and> totalWarnings (detect defaultErrorTolerance ascii_lower (Inr 1200) (collect ([] @ []) ErrorDetector_init)) = 0
    \<and> er_passed (detect defaultErrorTolerance ascii_lower (Inr 1200) (collect ([] @ []) ErrorDetector_init))"
    by code_simp
  show ?thesis
    using h e google_analytics_error_excluded [of ascii_lower analytics_message defaultErrorTolerance "Inr 1200" "[]" "[]" ErrorDetector_init]
    by simp
qed

lemma benign_patterns:
  "js ''analytics'' \<in> set ignorablePatterns"
  "js ''facebook'' \<in> set ignorablePatterns"
  "js ''tracking'' \<in> set ignorablePatterns"
  by (simp_all add: ignorablePatterns_def)

text \<open>
  C10: an uncaught exception is appended to \<open>consoleErrors\<close> like a console error, and
  the analysis reads only the message of an entry, so both are filtered and tagged
  alike. An uncaught exception whose lowered message contains one of the ignorable
  patterns (\<open>analytics\<close>, \<open>facebook\<close> and \<open>tracking\<close> are among them) is removed: with
  or without it the console errors, the critical total, the warning counter and the
  verdict are the same.
\<close>

theorem page_error_filtered_like_console_error:
  "consoleErrors (listener (PageErrorEv message) r) =
     consoleErrors r @ [\<lparr> ce_type = Page_error, ce_message = message, ce_severity = None \<rparr>]
   \<and> consoleErrors (listener (ConsoleMsg (js ''error'') message) r) =
     consoleErrors r @ [\<lparr> ce_type = Console_error, ce_message = message, ce_severity = None \<rparr>]
   \<and> ignorable lower \<lparr> ce_type = Page_error, ce_message = message, ce_severity = None \<rparr> =
     ignorable lower \<lparr> ce_type = Console_error, ce_message = message, ce_severity = None \<rparr>
   \<and> ce_severity (categorize lower \<lparr> ce_type = Page_error, ce_message = message, ce_severity = None \<rparr>) =
     ce_severity (categorize lower \<lparr> ce_type = Console_error, ce_message = message, ce_severity = None \<rparr>)
   \<and> js ''analytics'' \<in> set ignorablePatterns
   \<and> js ''facebook'' \<in> set ignorablePatterns
   \<and> js ''tracking'' \<in> set ignorablePatterns
   \<and> (pattern \<in> set ignorablePatterns \<and> js_includes (lower message) pattern
      \<longrightarrow> consoleErrors (detect tol lower perf (collect (pre @ PageErrorEv message # post) r0)) =
             consoleErrors (detect tol lower perf (collect (pre @ post) r0))
         \<and> totalCritical (detect tol lower perf (collect (pre @ PageErrorEv message # post) r0)) =
             totalCritical (detect tol lower perf (collect (pre @ post) r0))
         \<and> totalWarnings (detect tol lower perf (collect (pre @ PageErrorEv message # post) r0)) =
             totalWarnings (detect tol lower perf (collect (pre @ post) r0))
         \<and> er_passed (detect tol lower perf (collect (pre @ PageErrorEv message # post) r0)) =
             er_passed (detect tol lower perf (collect (pre @ post) r0))
         \<and> list_all (\<lambda>e. \<not> js_includes (lower (ce_message e)) pattern)
             (consoleErrors (detect tol lower perf (collect (pre @ PageErrorEv message # post) r0))))"
proof -
  let ?ev = "PageErrorEv message"
  let ?e = "\<lparr> ce_type = Page_error, ce_message = message, ce_severity = None \<rparr>"
  have 1: "consoleErrors (listener ?ev r) = consoleErrors r @ [?e]" by simp
  have 2: "consoleErrors (listener (ConsoleMsg (js ''error'') message) r) =
     consoleErrors r @ [\<lparr> ce_type = Console_error, ce_message = message, ce_severity = None \<rparr>]"
    by simp
  have 3: "ignorable lower ?e =
     ignorable lower \<lparr> ce_type = Console_error, ce_message = message, ce_severity = None \<rparr>"
    by (simp add: ignorable_def)
  have 4: "ce_severity (categorize lower ?e) =
     ce_severity (categorize lower \<lparr> ce_type = Console_error, ce_message = message, ce_severity = None \<rparr>)"
    by (simp add: categorize_def Let_def)
  have 5: "consoleErrors (detect tol lower perf (collect (pre @ ?ev # post) r0)) =
             consoleErrors (detect tol lower perf (collect (pre @ post) r0))
         \<and> totalCritical (detect tol lower perf (collect (pre @ ?ev # post) r0)) =
             totalCritical (detect tol lower perf (collect (pre @ post) r0))
         \<and> totalWarnings (detect tol lower perf (collect (pre @ ?ev # post) r0)) =
             totalWarnings (detect tol lower perf (collect (pre @ post) r0))
         \<and> er_passed (detect tol lower perf (collect (pre @ ?ev # post) r0)) =
             er_passed (detect tol lower perf (collect (pre @ post) r0))
         \<and> list_all (\<lambda>e. \<not> js_includes (lower (ce_message e)) pattern)
             (consoleErrors (detect tol lower perf (collect (pre @ ?ev # post) r0)))"
    if p: "pattern \<in> set ignorablePatterns" and m: "js_includes (lower message) pattern"
  proof -
    have c: "ev_console ?ev = [?e]" by (simp add: ev_console_def ErrorDetector_init_def)
    have n: "ev_network ?ev = []" by (simp add: ev_network_def ErrorDetector_init_def)
    have s: "ev_resource ?ev = []" by (simp add: ev_resource_def ErrorDetector_init_def)
    have w: "ev_warnings ?ev = 0" by (simp add: ev_warnings_def ErrorDetector_init_def)
    have i: "ignorable lower ?e"
      using ignorable_by_pattern [of pattern lower message Page_error None] p m by simp
    have l: "list_all (\<lambda>e. \<not> js_includes (lower (ce_message e)) pattern)
           (consoleErrors (detect tol lower perf (collect (pre @ ?ev # post) r0)))"
      using survivors_not_ignorable [OF _ p] by (auto simp add: list_all_iff)
    show ?thesis
      using ignorable_event_dropped [OF c i n s w, of tol perf pre post r0] l by simp
  qed
  show ?thesis
    using 1 2 3 4 5 benign_patterns by blast
qed

theorem page_error_filtered_like_console_error_witness:
  "js_includes (ascii_lower tracking_message) (js ''tracking'')
   \<and> consoleErrors (detect defaultErrorTolerance ascii_lower (Inr 1200)
        (collect ([] @ PageErrorEv tracking_message # []) ErrorDetector_init)) = []
   \<and> totalCritical (detect defaultErrorTolerance ascii_lower (Inr 1200)
        (collect ([] @ PageErrorEv tracking_message # []) ErrorDetector_init)) = 0
   \<and> totalWarnings (detect defaultErrorTolerance ascii_lower (Inr 1200)
        (collect ([] @ PageErrorEv tracking_message # []) ErrorDetector_init)) = 0
   \<and> er_passed (detect defaultErrorTolerance ascii_lower (Inr 1200)
        (collect ([] @ PageErrorEv tracking_message # []) ErrorDetector_init))"
proof -
  have h: "js_includes (ascii_lower tracking_message) (js ''tracking'')"
    by code_simp
  have e: "consoleErrors (detect defaultErrorTolerance ascii_lower (Inr 1200) (collect ([] @ []) ErrorDetector_init)) = []
    \<and> totalCritical (detect defaultErrorTolerance ascii_lower (Inr 1200) (collect ([] @ []) ErrorDetector_init)) = 0
    \<and> totalWarnings (detect defaultErrorTolerance ascii_lower (Inr 1200) (collect ([] @ []) ErrorDetector_init)) = 0
    \<and> er_passed (detect defaultErrorTolerance ascii_lower (Inr 1200) (collect ([] @ []) ErrorDetector_init))"
    by code_simp
  show ?thesis
    using h e page_error_filtered_like_console_error
      [of tracking_message _ ascii_lower "js ''tracking''" defaultErrorTolerance "Inr 1200" "[]" "[]" ErrorDetector_init]
    by simp
qed



section \<open>The text loops\<close>

lemma try_text_success:
  "try_text lookup ok c = Inr (Some t) \<longleftrightarrow> (matched_text lookup c = Some t \<and> ok t)"
  by (auto simp add: try_text_def matched_text_def evaluate_text_def
        split: sum.splits option.splits if_splits)

lemma try_text_throws:
  "(\<exists>e. try_text lookup ok c = Inl e) \<longleftrightarrow> candidate_throws lookup c"
  by (auto simp add: try_text_def candidate_throws_def evaluate_text_def
        split: sum.splits option.splits if_splits)

lemma text_loop_skip:
  assumes "\<forall>t. try_text lookup ok s \<noteq> Inr (Some t)"
  shows "text_loop lookup ok (s # rest) =
           (fst (text_loop lookup ok rest), s # snd (text_loop lookup ok rest))"
  using assms by (auto split: sum.splits option.splits prod.splits)

lemma text_loop_skip_prefix:
  assumes "\<forall>c\<in>set pre. \<forall>t. try_text lookup ok c \<noteq> Inr (Some t)"
  shows "text_loop lookup ok (pre @ rest) =
           (fst (text_loop lookup ok rest), pre @ snd (text_loop lookup ok rest))"
  using assms
proof (induction pre)
  case Nil
  then show ?case by simp
next
  case (Cons a pre)
  then have "\<forall>t. try_text lookup ok a \<noteq> Inr (Some t)" by simp
  from text_loop_skip [OF this, of "pre @ rest"] Cons show ?case by simp
qed

lemma text_loop_first:
  assumes "\<forall>c\<in>set pre. \<forall>t. try_text lookup ok c \<noteq> Inr (Some t)"
    and "try_text lookup ok s = Inr (Some t)"
  shows "text_loop lookup ok (pre @ s # post) = (Some (s, t), pre @ [s])"
  using text_loop_skip_prefix [OF assms(1), of "s # post"] assms(2) by simp

lemma text_loop_none:
  "fst (text_loop lookup ok sels) = None \<longleftrightarrow> (\<forall>c\<in>set sels. \<forall>t. try_text lookup ok c \<noteq> Inr (Some t))"
  by (induction sels) (auto split: sum.splits option.splits prod.splits)

lemma title_ok_iff: "title_ok t \<longleftrightarrow> t \<noteq> []"
  by (auto simp add: title_ok_def)

lemma description_ok_iff: "description_ok t \<longleftrightarrow> length t > 10"
  by (auto simp add: description_ok_def)

lemma price_ok_iff: "price_ok t \<longleftrightarrow> (\<exists>c\<in>set t. c \<in> {36, 8364, 163, 165} \<or> (48 \<le> c \<and> c \<le> 57))"
  by (auto simp add: price_ok_def list_ex_iff)

lemma first_winner:
  assumes "matched_text lookup s = Some t" and "ok t"
    and "\<forall>c\<in>set pre. \<forall>u. matched_text lookup c = Some u \<longrightarrow> \<not> ok u"
  shows "text_loop lookup ok (pre @ s # post) = (Some (s, t), pre @ [s])"
proof (rule text_loop_first)
  show "\<forall>c\<in>set pre. \<forall>t. try_text lookup ok c \<noteq> Inr (Some t)"
    using assms(3) by (simp add: try_text_success)
  show "try_text lookup ok s = Inr (Some t)"
    using assms(1,2) by (simp add: try_text_success)
qed

lemma throwing_skipped:
  assumes "\<forall>c\<in>set pre. \<forall>u. matched_text lookup c = Some u \<longrightarrow> \<not> ok u"
    and "candidate_throws lookup s"
  shows "text_loop lookup ok (pre @ s # post) =
           (fst (text_loop lookup ok post), pre @ s # snd (text_loop lookup ok post))"
proof -
  have p: "\<forall>c\<in>set pre. \<forall>t. try_text lookup ok c \<noteq> Inr (Some t)"
    using assms(1) by (simp add: try_text_success)
  obtain e where "try_text lookup ok s = Inl e"
    using assms(2) try_text_throws [of lookup ok s] by blast
  then have "\<forall>t. try_text lookup ok s \<noteq> Inr (Some t)" by simp
  from text_loop_skip [OF this, of post] text_loop_skip_prefix [OF p, of "s # post"]
  show ?thesis by simp
qed

lemma not_found_iff:
  "fst (text_loop lookup ok sels) = None \<longleftrightarrow>
     (\<forall>c\<in>set sels. \<forall>u. matched_text lookup c = Some u \<longrightarrow> \<not> ok u)"
  by (simp add: text_loop_none try_text_success)

lemma throws_no_text: "candidate_throws lookup s \<Longrightarrow> matched_text lookup s = None"
  by (auto simp add: candidate_throws_def matched_text_def split: sum.splits option.splits)

section \<open>The tests\<close>

lemma testProductTitle_errors:
  "errors (testProductTitle pg sels r) =
     errors r @ (if fst (title_loop pg sels) = None
       then [critical_finding Product_title ''Product title not found on page'' (Some sels)] else [])"
  and testProductTitle_warnings: "warnings (testProductTitle pg sels r) = warnings r"
  and testProductTitle_entry:
    "e_title (elements (testProductTitle pg sels r)) =
       (case fst (title_loop pg sels) of
          None \<Rightarrow> Some not_found
        | Some (sel, t) \<Rightarrow> Some (not_found\<lparr> r_found := True, r_selector := Some sel, r_text := Some t \<rparr>))"
  by (auto simp add: testProductTitle_def split: option.splits)

lemma testProductPrice_errors:
  "errors (testProductPrice pg cfg r) =
     errors r @ (if fst (price_loop pg (case cfg of Some l \<Rightarrow> l | None \<Rightarrow> defaultPriceSelectors)) = None
       then [critical_finding Product_price ''Product price not found on page''
               (Some (case cfg of Some l \<Rightarrow> l | None \<Rightarrow> defaultPriceSelectors))] else [])"
  and testProductPrice_warnings: "warnings (testProductPrice pg cfg r) = warnings r"
  and testProductPrice_entry:
    "e_price (elements (testProductPrice pg cfg r)) =
       (case fst (price_loop pg (case cfg of Some l \<Rightarrow> l | None \<Rightarrow> defaultPriceSelectors)) of
          None \<Rightarrow> Some not_found
        | Some (sel, t) \<Rightarrow> Some (not_found\<lparr> r_found := True, r_selector := Some sel, r_text := Some t \<rparr>))"
  by (auto simp add: testProductPrice_def Let_def split: option.splits)

lemma testProductDescription_errors:
  "errors (testProductDescription pg sels r) = errors r"
  by (auto simp add: testProductDescription_def split: option.splits)

lemma testProductDescription_warnings:
  "set (warnings r) \<subseteq> set (warnings (testProductDescription pg sels r))"
  by (auto simp add: testProductDescription_def split: option.splits)

lemma testAddToCartButton_errors:
  "errors (testAddToCartButton pg sels r) =
     errors r @
       (let st = addToCart_loop pg sels button_init in
        if \<not> buttonFound st
        then [critical_finding Add_to_cart_button ''Add to cart button not found on page'' (Some sels)]
        else if \<not> buttonVisible st
        then [critical_finding Add_to_cart_button ''Add to cart button is not visible'' None]
        else [])"
  by (simp add: testAddToCartButton_def Let_def split: option.splits)

lemma testAddToCartButton_warnings:
  "warnings (testAddToCartButton pg sels r) =
     warnings r @
       (let st = addToCart_loop pg sels button_init in
        if buttonFound st \<and> buttonVisible st \<and> \<not> buttonEnabled st
        then [warning_finding Add_to_cart_button
                (js ''Add to cart button is disabled (product may be out of stock)'') None]
        else [])"
  by (simp add: testAddToCartButton_def Let_def split: option.splits)

lemma testProductImages_errors: "errors (testProductImages pg sels r) = errors r"
  and testProductImages_warnings: "set (warnings r) \<subseteq> set (warnings (testProductImages pg sels r))"
  by (auto simp add: testProductImages_def split: option.splits)

lemma testProductVariants_errors: "errors (testProductVariants pg sels r) = errors r"
  and testProductVariants_warnings: "warnings (testProductVariants pg sels r) = warnings r"
  by (auto simp add: testProductVariants_def split: option.splits)

lemma testMetaInformation_errors: "errors (testMetaInformation pg r) = errors r"
  and testMetaInformation_warnings: "set (warnings r) \<subseteq> set (warnings (testMetaInformation pg r))"
  by (auto simp add: testMetaInformation_def Let_def split: sum.splits option.splits)

lemma waitForPageLoad_errors: "errors (waitForPageLoad pg r) = errors r"
  by (auto simp add: waitForPageLoad_def split: sum.splits)

lemma addToCart_loop_found:
  "buttonFound (addToCart_loop pg sels st) \<longleftrightarrow>
     buttonFound st \<or> (\<exists>c\<in>set sels. \<exists>el. query pg c = Inr (Some el))"
proof (induction sels arbitrary: st)
  case Nil
  then show ?case by simp
next
  case (Cons sel rest)
  show ?case
  proof (cases "query pg sel")
    case (Inl e)
    then show ?thesis using Cons.IH [of st] by simp
  next
    case (Inr m)
    show ?thesis
    proof (cases m)
      case None
      then show ?thesis using Inr Cons.IH [of st] by simp
    next
      case (Some el)
      then show ?thesis
        using Inr Cons.IH [of "st\<lparr> buttonFound := True \<rparr>"]
        by (auto simp add: Let_def split: sum.splits prod.splits)
    qed
  qed
qed

text \<open>
  The two other flags are those of the first candidate whose node can be inspected.
\<close>

lemma addToCart_loop_flags:
  "buttonVisible (addToCart_loop pg sels st) =
     (case find (\<lambda>c. inspected pg c \<noteq> None) sels of
        None \<Rightarrow> buttonVisible st
      | Some c \<Rightarrow> fst (the (inspected pg c)) \<or> buttonVisible st)
   \<and> buttonEnabled (addToCart_loop pg sels st) =
     (case find (\<lambda>c. inspected pg c \<noteq> None) sels of
        None \<Rightarrow> buttonEnabled st
      | Some c \<Rightarrow> snd (the (inspected pg c)) \<or> buttonEnabled st)"
proof (induction sels arbitrary: st)
  case Nil
  then show ?case by simp
next
  case (Cons sel rest)
  show ?case
  proof (cases "query pg sel")
    case (Inl e)
    then have i: "inspected pg sel = None" by (simp add: inspected_def)
    show ?thesis using Inl i Cons.IH [of st] by simp
  next
    case (Inr m)
    show ?thesis
    proof (cases m)
      case None
      then have i: "inspected pg sel = None" using Inr by (simp add: inspected_def)
      show ?thesis using Inr None i Cons.IH [of st] by simp
    next
      case (Some el)
      show ?thesis
      proof (cases "el_rect el")
        case (Inl e)
        then have i: "inspected pg sel = None" using Inr Some by (simp add: inspected_def)
        show ?thesis
          using Inr Some Inl i Cons.IH [of "st\<lparr> buttonFound := True \<rparr>"]
          by (simp cong: option.case_cong)
      next
        case r: (Inr wh)
        obtain w h where wh: "wh = (w, h)" by (cases wh)
        show ?thesis
        proof (cases "el_disabled el")
          case (Inl e)
          then have i: "inspected pg sel = None" using Inr Some r wh by (simp add: inspected_def)
          show ?thesis
            using Inr Some r wh Inl i Cons.IH [of "st\<lparr> buttonFound := True \<rparr>"]
            by (simp cong: option.case_cong)
        next
          case d: (Inr disabled)
          then have i: "inspected pg sel = Some (w > 0 \<and> h > 0, \<not> disabled)"
            using Inr Some r wh by (simp add: inspected_def)
          show ?thesis
            using Inr Some r wh d i by (auto simp add: Let_def)
        qed
      qed
    qed
  qed
qed

lemma test_Inr:
  assumes "ProductPageTester_test pg sel = Inr r"
  shows "\<exists>titles descriptions buttons imgs variants r7.
     productTitle sel = Some titles \<and> productDescription sel = Some descriptions \<and>
     addToCart sel = Some buttons \<and> productImage sel = Some imgs \<and>
     productVariant sel = Some variants \<and>
     r7 = testMetaInformation pg (testProductVariants pg variants (testProductImages pg imgs
            (testAddToCartButton pg buttons (testProductDescription pg descriptions
              (testProductPrice pg (productPrice sel) (testProductTitle pg titles
                (waitForPageLoad pg ProductPageTester_init))))))) \<and>
     r = r7\<lparr> pp_passed := (errors r7 = []) \<rparr>"
  using assms by (simp add: ProductPageTester_test_def Let_def split: option.splits)

lemma test_total:
  assumes "productTitle sel \<noteq> None" "productDescription sel \<noteq> None" "addToCart sel \<noteq> None"
    "productImage sel \<noteq> None" "productVariant sel \<noteq> None"
  shows "\<exists>r. ProductPageTester_test pg sel = Inr r"
  using assms by (auto simp add: ProductPageTester_test_def Let_def)

lemma test_errors:
  assumes t: "ProductPageTester_test pg sel = Inr r"
    and "productTitle sel = Some titles" and "addToCart sel = Some buttons"
    and "st = addToCart_loop pg buttons button_init"
  shows "errors r =
     (if fst (title_loop pg titles) = None
      then [critical_finding Product_title ''Product title not found on page'' (Some titles)] else []) @
     (if fst (price_loop pg (price_selectors sel)) = None
      then [critical_finding Product_price ''Product price not found on page''
              (Some (price_selectors sel))] else []) @
     (if \<not> buttonFound st
      then [critical_finding Add_to_cart_button ''Add to cart button not found on page'' (Some buttons)]
      else if \<not> buttonVisible st
      then [critical_finding Add_to_cart_button ''Add to cart button is not visible'' None]
      else [])"
    and "pp_passed r = (errors r = [])"
proof -
  from test_Inr [OF t] obtain titles' descriptions buttons' imgs variants r7 where
    l: "productTitle sel = Some titles'" "addToCart sel = Some buttons'"
    and r7: "r7 = testMetaInformation pg (testProductVariants pg variants (testProductImages pg imgs
            (testAddToCartButton pg buttons' (testProductDescription pg descriptions
              (testProductPrice pg (productPrice sel) (testProductTitle pg titles'
                (waitForPageLoad pg ProductPageTester_init)))))))"
    and r: "r = r7\<lparr> pp_passed := (errors r7 = []) \<rparr>"
    by blast
  have eq: "titles' = titles" "buttons' = buttons" using l assms(2,3) by simp_all
  have e: "errors r = errors r7" and p: "pp_passed r = (errors r7 = [])" using r by simp_all
  show "pp_passed r = (errors r = [])" using e p by simp
  show "errors r =
     (if fst (title_loop pg titles) = None
      then [critical_finding Product_title ''Product title not found on page'' (Some titles)] else []) @
     (if fst (price_loop pg (price_selectors sel)) = None
      then [critical_finding Product_price ''Product price not found on page''
              (Some (price_selectors sel))] else []) @
     (if \<not> buttonFound st
      then [critical_finding Add_to_cart_button ''Add to cart button not found on page'' (Some buttons)]
      else if \<not> buttonVisible st
      then [critical_finding Add_to_cart_button ''Add to cart button is not visible'' None]
      else [])"
    unfolding e r7 eq assms(4) price_selectors_def
    by (simp add: testProductTitle_errors testProductPrice_errors testProductDescription_errors
      testAddToCartButton_errors testProductImages_errors testProductVariants_errors
      testMetaInformation_errors waitForPageLoad_errors ProductPageTester_init_def Let_def)
qed

lemma test_disabled_warning:
  assumes t: "ProductPageTester_test pg sel = Inr r"
    and "addToCart sel = Some buttons"
    and "st = addToCart_loop pg buttons button_init"
    and "buttonFound st" "buttonVisible st" "\<not> buttonEnabled st"
  shows "warning_finding Add_to_cart_button
           (js ''Add to cart button is disabled (product may be out of stock)'') None
         \<in> set (warnings r)"
proof -
  from test_Inr [OF t] obtain titles descriptions buttons' imgs variants r7 where
    l: "addToCart sel = Some buttons'"
    and r7: "r7 = testMetaInformation pg (testProductVariants pg variants (testProductImages pg imgs
            (testAddToCartButton pg buttons' (testProductDescription pg descriptions
              (testProductPrice pg (productPrice sel) (testProductTitle pg titles
                (waitForPageLoad pg ProductPageTester_init)))))))"
    and r: "r = r7\<lparr> pp_passed := (errors r7 = []) \<rparr>"
    by blast
  have eq: "buttons' = buttons" using l assms(2) by simp
  let ?r3 = "testProductDescription pg descriptions
              (testProductPrice pg (productPrice sel) (testProductTitle pg titles
                (waitForPageLoad pg ProductPageTester_init)))"
  let ?w = "warning_finding Add_to_cart_button
           (js ''Add to cart button is disabled (product may be out of stock)'') None"
  have "?w \<in> set (warnings (testAddToCartButton pg buttons ?r3))"
    using assms(3-6) by (simp add: testAddToCartButton_warnings Let_def)
  then have "?w \<in> set (warnings (testProductImages pg imgs (testAddToCartButton pg buttons ?r3)))"
    using testProductImages_warnings by blast
  then have "?w \<in> set (warnings (testProductVariants pg variants
      (testProductImages pg imgs (testAddToCartButton pg buttons ?r3))))"
    by (simp add: testProductVariants_warnings)
  then have "?w \<in> set (warnings r7)"
    unfolding r7 eq using testMetaInformation_warnings by blast
  then show ?thesis using r by simp
qed

text \<open>
  C3: the structural verdict is false exactly when the title loop or the price loop
  finds nothing, or the add-to-cart loop ends with \<open>buttonFound\<close> unset, or with
  \<open>buttonFound\<close> set and \<open>buttonVisible\<close> unset. A button that is found and visible
  but not enabled adds the warning and no error. \<open>buttonFound\<close> is set exactly when
  some candidate matches a node; \<open>buttonVisible\<close> is set exactly when the first
  candidate whose node can be inspected has a bounding rectangle of positive width and
  height.
\<close>

theorem structural_verdict:
  assumes "ProductPageTester_test pg sel = Inr r"
    and "productTitle sel = Some titles" and "addToCart sel = Some buttons"
    and "st = addToCart_loop pg buttons button_init"
  shows "(pp_passed r = False) =
           (fst (title_loop pg titles) = None \<or> fst (price_loop pg (price_selectors sel)) = None \<or>
            \<not> buttonFound st \<or> (buttonFound st \<and> \<not> buttonVisible st))
       \<and> (fst (title_loop pg titles) \<noteq> None \<and> fst (price_loop pg (price_selectors sel)) \<noteq> None \<and>
           buttonFound st \<and> buttonVisible st \<and> \<not> buttonEnabled st
           \<longrightarrow> pp_passed r \<and> errors r = [] \<and>
               warning_finding Add_to_cart_button
                 (js ''Add to cart button is disabled (product may be out of stock)'') None
               \<in> set (warnings r))
       \<and> buttonFound st = (\<exists>c\<in>set buttons. \<exists>el. query pg c = Inr (Some el))
       \<and> buttonVisible st =
           (case find (\<lambda>c. inspected pg c \<noteq> None) buttons of
              None \<Rightarrow> False | Some c \<Rightarrow> fst (the (inspected pg c)))"
proof -
  note e = test_errors [OF assms]
  have 1: "(pp_passed r = False) =
           (fst (title_loop pg titles) = None \<or> fst (price_loop pg (price_selectors sel)) = None \<or>
            \<not> buttonFound st \<or> (buttonFound st \<and> \<not> buttonVisible st))"
    unfolding e(2) e(1) by simp
  have 2: "buttonFound st \<and> buttonVisible st \<and> \<not> buttonEnabled st \<longrightarrow>
        warning_finding Add_to_cart_button
                 (js ''Add to cart button is disabled (product may be out of stock)'') None
               \<in> set (warnings r)"
    using test_disabled_warning [OF assms(1,3,4)] by blast
  have 3: "buttonFound st = (\<exists>c\<in>set buttons. \<exists>el. query pg c = Inr (Some el))"
    unfolding assms(4) addToCart_loop_found by (simp add: button_init_def)
  have 4: "fst (title_loop pg titles) \<noteq> None \<and> fst (price_loop pg (price_selectors sel)) \<noteq> None \<and>
           buttonFound st \<and> buttonVisible st \<and> \<not> buttonEnabled st
           \<longrightarrow> pp_passed r \<and> errors r = [] \<and>
               warning_finding Add_to_cart_button
                 (js ''Add to cart button is disabled (product may be out of stock)'') None
               \<in> set (warnings r)"
    using 1 2 e(2) by auto
  have 5: "buttonVisible st =
           (case find (\<lambda>c. inspected pg c \<noteq> None) buttons of
              None \<Rightarrow> False | Some c \<Rightarrow> fst (the (inspected pg c)))"
    unfolding assms(4) using addToCart_loop_flags [of pg buttons button_init]
    by (simp add: button_init_def cong: option.case_cong)
  show ?thesis by (intro conjI 1 4 3 5)
qed

theorem structural_verdict_witness:
  "ProductPageTester_test shop_page shop_selectors =
     Inr (projr (ProductPageTester_test shop_page shop_selectors))
   \<and> productTitle shop_selectors = Some [js ''h1[bad'', js ''h1'', js ''.title'']
   \<and> addToCart shop_selectors = Some [js ''button'']
   \<and> fst (title_loop shop_page [js ''h1[bad'', js ''h1'', js ''.title'']) \<noteq> None
   \<and> fst (price_loop shop_page (price_selectors shop_selectors)) \<noteq> None
   \<and> buttonFound (addToCart_loop shop_page [js ''button''] button_init)
   \<and> buttonVisible (addToCart_loop shop_page [js ''button''] button_init)
   \<and> \<not> buttonEnabled (addToCart_loop shop_page [js ''button''] button_init)
   \<and> pp_passed (projr (ProductPageTester_test shop_page shop_selectors))
   \<and> errors (projr (ProductPageTester_test shop_page shop_selectors)) = []
   \<and> warning_finding Add_to_cart_button
        (js ''Add to cart button is disabled (product may be out of stock)'') None
      \<in> set (warnings (projr (ProductPageTester_test shop_page shop_selectors)))"
proof -
  have a: "ProductPageTester_test shop_page shop_selectors =
     Inr (projr (ProductPageTester_test shop_page shop_selectors))"
    by code_simp
  have b: "productTitle shop_selectors = Some [js ''h1[bad'', js ''h1'', js ''.title'']"
    and c: "addToCart shop_selectors = Some [js ''button'']"
    by (simp_all add: shop_selectors_def)
  have d: "fst (title_loop shop_page [js ''h1[bad'', js ''h1'', js ''.title'']) \<noteq> None
   \<and> fst (price_loop shop_page (price_selectors shop_selectors)) \<noteq> None
   \<and> buttonFound (addToCart_loop shop_page [js ''button''] button_init)
   \<and> buttonVisible (addToCart_loop shop_page [js ''button''] button_init)
   \<and> \<not> buttonEnabled (addToCart_loop shop_page [js ''button''] button_init)"
    by code_simp
  show ?thesis
    using a b c d structural_verdict [OF a b c refl] by simp
qed

text \<open>
  C8: a candidate whose evaluation throws is passed over like one that does not match:
  the loop goes on with the candidates after it. A loop finds nothing exactly when no
  candidate matches a node whose text passes the test, and then the element is reported
  as not found. Whatever the page does, \<open>test\<close> returns when the selector lists exist.
\<close>

theorem throwing_candidate_skipped:
  "(candidate_throws (query pg) s \<and>
      (\<forall>c\<in>set pre. \<forall>u. matched_text (query pg) c = Some u \<longrightarrow> \<not> title_ok u)
      \<longrightarrow> title_loop pg (pre @ s # post) =
            (fst (title_loop pg post), pre @ s # snd (title_loop pg post)))
   \<and> (candidate_throws (waitForSelector pg) s \<and>
      (\<forall>c\<in>set pre. \<forall>u. matched_text (waitForSelector pg) c = Some u \<longrightarrow> \<not> price_ok u)
      \<longrightarrow> price_loop pg (pre @ s # post) =
            (fst (price_loop pg post), pre @ s # snd (price_loop pg post)))
   \<and> (fst (title_loop pg sels) = None) =
       (\<forall>c\<in>set sels. \<forall>u. matched_text (query pg) c = Some u \<longrightarrow> \<not> title_ok u)
   \<and> (fst (price_loop pg sels) = None) =
       (\<forall>c\<in>set sels. \<forall>u. matched_text (waitForSelector pg) c = Some u \<longrightarrow> \<not> price_ok u)
   \<and> (\<exists>e. e_title (elements (testProductTitle pg sels r)) = Some e \<and>
            r_found e = (fst (title_loop pg sels) \<noteq> None))
   \<and> (\<exists>e. e_price (elements (testProductPrice pg (Some sels) r)) = Some e \<and>
            r_found e = (fst (price_loop pg sels) \<noteq> None))
   \<and> (productTitle sel \<noteq> None \<and> productDescription sel \<noteq> None \<and> addToCart sel \<noteq> None \<and>
       productImage sel \<noteq> None \<and> productVariant sel \<noteq> None
       \<longrightarrow> (\<exists>r. ProductPageTester_test pg sel = Inr r))"
proof -
  have 1: "candidate_throws (query pg) s \<and>
      (\<forall>c\<in>set pre. \<forall>u. matched_text (query pg) c = Some u \<longrightarrow> \<not> title_ok u)
      \<longrightarrow> title_loop pg (pre @ s # post) =
            (fst (title_loop pg post), pre @ s # snd (title_loop pg post))"
    unfolding title_loop_def using throwing_skipped [of pre "query pg" title_ok s post] by blast
  have 2: "candidate_throws (waitForSelector pg) s \<and>
      (\<forall>c\<in>set pre. \<forall>u. matched_text (waitForSelector pg) c = Some u \<longrightarrow> \<not> price_ok u)
      \<longrightarrow> price_loop pg (pre @ s # post) =
            (fst (price_loop pg post), pre @ s # snd (price_loop pg post))"
    unfolding price_loop_def using throwing_skipped [of pre "waitForSelector pg" price_ok s post] by blast
  have 3: "(fst (title_loop pg sels) = None) =
       (\<forall>c\<in>set sels. \<forall>u. matched_text (query pg) c = Some u \<longrightarrow> \<not> title_ok u)"
    unfolding title_loop_def by (rule not_found_iff)
  have 4: "(fst (price_loop pg sels) = None) =
       (\<forall>c\<in>set sels. \<forall>u. matched_text (waitForSelector pg) c = Some u \<longrightarrow> \<not> price_ok u)"
    unfolding price_loop_def by (rule not_found_iff)
  have 5: "\<exists>e. e_title (elements (testProductTitle pg sels r)) = Some e \<and>
            r_found e = (fst (title_loop pg sels) \<noteq> None)"
    by (auto simp add: testProductTitle_entry not_found_def split: option.splits)
  have 6: "\<exists>e. e_price (elements (testProductPrice pg (Some sels) r)) = Some e \<and>
            r_found e = (fst (price_loop pg sels) \<noteq> None)"
    by (auto simp add: testProductPrice_entry not_found_def split: option.splits)
  have 7: "productTitle sel \<noteq> None \<and> productDescription sel \<noteq> None \<and> addToCart sel \<noteq> None \<and>
       productImage sel \<noteq> None \<and> productVariant sel \<noteq> None
       \<longrightarrow> (\<exists>r. ProductPageTester_test pg sel = Inr r)"
    using test_total [of sel pg] by blast
  show ?thesis by (intro conjI 1 2 3 4 5 6 7)
qed

theorem throwing_candidate_skipped_witness:
  "candidate_throws (query shop_page) (js ''h1[bad'')
   \<and> title_loop shop_page ([] @ js ''h1[bad'' # [js ''h1'', js ''.title'']) =
       (fst (title_loop shop_page [js ''h1'', js ''.title'']),
        [] @ js ''h1[bad'' # snd (title_loop shop_page [js ''h1'', js ''.title'']))
   \<and> fst (title_loop shop_page [js ''h1'', js ''.title'']) = Some (js ''h1'', js ''Blue shirt'')
   \<and> candidate_throws (waitForSelector shop_page) (js ''.sale'')
   \<and> price_loop shop_page ([] @ js ''.sale'' # [js ''.price'']) =
       (fst (price_loop shop_page [js ''.price'']),
        [] @ js ''.sale'' # snd (price_loop shop_page [js ''.price'']))
   \<and> fst (price_loop shop_page [js ''.price'']) = Some (js ''.price'', js ''$19.99'')
   \<and> (\<exists>r. ProductPageTester_test shop_page shop_selectors = Inr r)"
proof -
  have a: "candidate_throws (query shop_page) (js ''h1[bad'')
      \<and> candidate_throws (waitForSelector shop_page) (js ''.sale'')
      \<and> fst (title_loop shop_page [js ''h1'', js ''.title'']) = Some (js ''h1'', js ''Blue shirt'')
      \<and> fst (price_loop shop_page [js ''.price'']) = Some (js ''.price'', js ''$19.99'')"
    by code_simp
  have b: "productTitle shop_selectors \<noteq> None \<and> productDescription shop_selectors \<noteq> None \<and>
       addToCart shop_selectors \<noteq> None \<and> productImage shop_selectors \<noteq> None \<and>
       productVariant shop_selectors \<noteq> None"
    by (simp add: shop_selectors_def)
  show ?thesis
    using a b
      throwing_candidate_skipped [of shop_page "js ''h1[bad''" "[]" "[js ''h1'', js ''.title'']" _ _ shop_selectors]
      throwing_candidate_skipped [of shop_page "js ''.sale''" "[]" "[js ''.price'']" _ _ shop_selectors]
    by simp
qed

text \<open>
  C4, as stated, fails for the description: the first candidate matches a node whose
  trimmed text is not empty, and the loop goes on and returns the second candidate.
\<close>

theorem description_first_nonempty_counterexample:
  "matched_text (query shop_page) (js ''.teaser'') = Some (js ''Nice'')
   \<and> js ''Nice'' \<noteq> []
   \<and> description_loop shop_page [js ''.teaser'', js ''.description''] =
       (Some (js ''.description'', js ''A blue cotton shirt''), [js ''.teaser'', js ''.description''])"
  by code_simp

text \<open>
  C4, amended: each loop returns the first candidate, in list order, that matches a node
  whose trimmed text passes the element's test, and hands no later candidate to the
  page. The test is a non-empty text for the title, a currency sign (dollar, euro,
  pound, yen) or a digit for the price, and more than ten code units for the
  description.
\<close>

theorem first_success_resolution:
  "(matched_text (query pg) s = Some t \<and> title_ok t \<and>
      (\<forall>c\<in>set pre. \<forall>u. matched_text (query pg) c = Some u \<longrightarrow> \<not> title_ok u)
      \<longrightarrow> title_loop pg (pre @ s # post) = (Some (s, t), pre @ [s]))
   \<and> (matched_text (waitForSelector pg) s = Some t \<and> price_ok t \<and>
      (\<forall>c\<in>set pre. \<forall>u. matched_text (waitForSelector pg) c = Some u \<longrightarrow> \<not> price_ok u)
      \<longrightarrow> price_loop pg (pre @ s # post) = (Some (s, t), pre @ [s]))
   \<and> (matched_text (query pg) s = Some t \<and> description_ok t \<and>
      (\<forall>c\<in>set pre. \<forall>u. matched_text (query pg) c = Some u \<longrightarrow> \<not> description_ok u)
      \<longrightarrow> description_loop pg (pre @ s # post) = (Some (s, t), pre @ [s]))
   \<and> title_ok t = (t \<noteq> [])
   \<and> price_ok t = (\<exists>c\<in>set t. c \<in> {36, 8364, 163, 165} \<or> (48 \<le> c \<and> c \<le> 57))
   \<and> description_ok t = (length t > 10)"
  using first_winner [of "query pg" s t title_ok pre post]
    first_winner [of "waitForSelector pg" s t price_ok pre post]
    first_winner [of "query pg" s t description_ok pre post]
    title_ok_iff [of t] price_ok_iff [of t] description_ok_iff [of t]
  unfolding title_loop_def price_loop_def description_loop_def
  by blast

theorem first_success_resolution_witness:
  "matched_text (query shop_page) (js ''h1'') = Some (js ''Blue shirt'')
   \<and> title_ok (js ''Blue shirt'')
   \<and> matched_text (query shop_page) (js ''h1[bad'') = None
   \<and> title_loop shop_page ([js ''h1[bad''] @ js ''h1'' # [js ''.title'']) =
       (Some (js ''h1'', js ''Blue shirt''), [js ''h1[bad''] @ [js ''h1''])
   \<and> matched_text (waitForSelector shop_page) (js ''.price'') = Some (js ''$19.99'')
   \<and> price_ok (js ''$19.99'')
   \<and> matched_text (waitForSelector shop_page) (js ''.sale'') = None
   \<and> price_loop shop_page ([js ''.sale''] @ js ''.price'' # []) =
       (Some (js ''.price'', js ''$19.99''), [js ''.sale''] @ [js ''.price''])
   \<and> matched_text (query shop_page) (js ''.description'') = Some (js ''A blue cotton shirt'')
   \<and> description_ok (js ''A blue cotton shirt'')
   \<and> matched_text (query shop_page) (js ''.teaser'') = Some (js ''Nice'')
   \<and> \<not> description_ok (js ''Nice'')
   \<and> description_loop shop_page ([js ''.teaser''] @ js ''.description'' # []) =
       (Some (js ''.description'', js ''A blue cotton shirt''), [js ''.teaser''] @ [js ''.description''])"
proof -
  have a: "matched_text (query shop_page) (js ''h1'') = Some (js ''Blue shirt'')
      \<and> title_ok (js ''Blue shirt'') \<and> matched_text (query shop_page) (js ''h1[bad'') = None"
    by code_simp
  have b: "matched_text (waitForSelector shop_page) (js ''.price'') = Some (js ''$19.99'')
      \<and> price_ok (js ''$19.99'') \<and> matched_text (waitForSelector shop_page) (js ''.sale'') = None"
    by code_simp
  have c: "matched_text (query shop_page) (js ''.description'') = Some (js ''A blue cotton shirt'')
      \<and> description_ok (js ''A blue cotton shirt'')
      \<and> matched_text (query shop_page) (js ''.teaser'') = Some (js ''Nice'')
      \<and> \<not> description_ok (js ''Nice'')"
    by code_simp
  show ?thesis
    using a b c
      first_success_resolution [of shop_page "js ''h1''" "js ''Blue shirt''" "[js ''h1[bad'']" "[js ''.title'']"]
      first_success_resolution [of shop_page "js ''.price''" "js ''$19.99''" "[js ''.sale'']" "[]"]
      first_success_resolution [of shop_page "js ''.description''" "js ''A blue cotton shirt''" "[js ''.teaser'']" "[]"]
    by simp
qed

section \<open>The image validator\<close>

lemma check_loaded_fields:
  "ii_src (fst (check_loaded rs pr img)) = recorded_src img"
  "ii_width (fst (check_loaded rs pr img)) = width img"
  "ii_height (fst (check_loaded rs pr img)) = height img"
  by (auto simp add: check_loaded_def recorded_src_def Let_def split: option.splits sum.splits)

lemma image_record_fields:
  "ii_src (image_record rs pr img) = recorded_src img"
  "ii_width (image_record rs pr img) = width img"
  "ii_height (image_record rs pr img) = height img"
  "width img = 0 \<or> height img = 0 \<Longrightarrow> ii_error (image_record rs pr img) = Some Zero_dimensions"
  by (auto simp add: image_record_def check_loaded_fields)

lemma validateImage_images:
  "images (validateImage rs pr img r) = images r @ [image_record rs pr img]"
  by (simp add: validateImage_def image_record_def Let_def split: prod.splits)

lemma validateImage_failedImages:
  "failedImages (validateImage rs pr img r) =
     failedImages r @
       (if load_failed rs pr img \<or>
           ((width img = 0 \<or> height img = 0) \<and>
            \<not> list_ex (\<lambda>f. ii_src f = recorded_src img) (failedImages r))
        then [image_record rs pr img] else [])"
proof -
  obtain info1 pushed counted where c: "check_loaded rs pr img = (info1, pushed, counted)"
    by (cases "check_loaded rs pr img") auto
  have s: "ii_src info1 = recorded_src img" using check_loaded_fields(1) [of rs pr img] c by simp
  show ?thesis
    using c s by (auto simp add: validateImage_def image_record_def load_failed_def Let_def)
qed

lemma validateImage_totalImages:
  "totalImages (validateImage rs pr img r) = totalImages r"
  by (simp add: validateImage_def Let_def split: prod.splits)

lemma fold_validateImage_totalImages:
  "totalImages (fold (validateImage rs pr) imgs r) = totalImages r"
  by (induction imgs arbitrary: r) (simp_all add: validateImage_totalImages)

lemma scroll_loop_stop:
  "\<not> (scroll < sh \<and> 0 < vh) \<Longrightarrow> scroll_loop pg vh sh scroll r = (r, None)"
  by (subst scroll_loop.simps) auto

lemma scroll_loop_throw:
  "scroll < sh \<Longrightarrow> 0 < vh \<Longrightarrow> afterScroll pg scroll = Inl e \<Longrightarrow>
     scroll_loop pg vh sh scroll r = (r, Some e)"
  by (subst scroll_loop.simps) auto

lemma scroll_loop_step:
  "scroll < sh \<Longrightarrow> 0 < vh \<Longrightarrow> afterScroll pg scroll = Inr newImages \<Longrightarrow>
     scroll_loop pg vh sh scroll r =
       scroll_loop pg vh sh (scroll + vh)
         (if length newImages > totalImages r
          then fold (validateImage Map.empty (probe pg)) (drop (totalImages r) newImages) r
          else r)"
  by (subst scroll_loop.simps) auto

lemma scroll_loop_totalImages:
  "totalImages (fst (scroll_loop pg vh sh scroll r)) = totalImages r"
proof (induction pg vh sh scroll r rule: scroll_loop.induct)
  case (1 pg vh sh scroll r)
  show ?case
  proof (cases "scroll < sh \<and> 0 < vh")
    case False
    then show ?thesis by (simp add: scroll_loop_stop)
  next
    case True
    show ?thesis
    proof (cases "afterScroll pg scroll")
      case (Inl e)
      then show ?thesis using True by (simp add: scroll_loop_throw)
    next
      case (Inr newImages)
      then show ?thesis
        using True "1.IH" [OF True Inr]
        by (simp add: scroll_loop_step fold_validateImage_totalImages)
    qed
  qed
qed

lemma checkLazyLoadedImages_totalImages:
  assumes "checkLazyLoadedImages pg vh r = Some r'"
  shows "totalImages r' = totalImages r"
proof (cases "scrollHeight pg")
  case (Inl e)
  then show ?thesis using assms by (auto simp add: checkLazyLoadedImages_def lazy_warning_def)
next
  case (Inr sh)
  show ?thesis
  proof (cases "vh = 0 \<and> 0 < sh")
    case True
    then show ?thesis
      using assms Inr
      by (auto simp add: checkLazyLoadedImages_def lazy_warning_def split: sum.splits)
  next
    case False
    obtain r1 e where l: "scroll_loop pg vh sh 0 r = (r1, e)"
      by (cases "scroll_loop pg vh sh 0 r") auto
    have t: "totalImages r1 = totalImages r"
      using scroll_loop_totalImages [of pg vh sh 0 r] l by simp
    have "totalImages r' = totalImages r1"
      using assms Inr False l
      by (auto simp add: checkLazyLoadedImages_def lazy_warning_def split: sum.splits option.splits)
    then show ?thesis using t by simp
  qed
qed

lemma checkLazyLoadedImages_returns:
  "0 < vh \<Longrightarrow> \<exists>r'. checkLazyLoadedImages pg vh r = Some r'"
  by (auto simp add: checkLazyLoadedImages_def split: sum.splits option.splits prod.splits)

text \<open>An entry of \<open>failedImages\<close> with a given URL stays.\<close>

lemma validateImage_keeps_src:
  "\<exists>f\<in>set (failedImages r). ii_src f = u \<Longrightarrow>
     \<exists>f\<in>set (failedImages (validateImage rs pr img r)). ii_src f = u"
  by (auto simp add: validateImage_failedImages)

lemma fold_validateImage_keeps_src:
  "\<exists>f\<in>set (failedImages r). ii_src f = u \<Longrightarrow>
     \<exists>f\<in>set (failedImages (fold (validateImage rs pr) imgs r)). ii_src f = u"
proof (induction imgs arbitrary: r)
  case Nil
  then show ?case by simp
next
  case (Cons a imgs)
  from Cons.IH [OF validateImage_keeps_src [OF Cons.prems]] show ?case by simp
qed

lemma validateImage_zero_src:
  assumes "width img = 0 \<or> height img = 0"
  shows "\<exists>f\<in>set (failedImages (validateImage rs pr img r)). ii_src f = recorded_src img"
proof (cases "list_ex (\<lambda>f. ii_src f = recorded_src img) (failedImages r)")
  case True
  then show ?thesis by (auto simp add: validateImage_failedImages list_ex_iff)
next
  case False
  then show ?thesis using assms
    by (simp add: validateImage_failedImages image_record_fields)
qed

lemma fold_validateImage_zero_src:
  assumes "img \<in> set imgs" and "width img = 0 \<or> height img = 0"
  shows "\<exists>f\<in>set (failedImages (fold (validateImage rs pr) imgs r)). ii_src f = recorded_src img"
  using assms(1)
proof (induction imgs arbitrary: r)
  case Nil
  then show ?case by simp
next
  case (Cons a imgs)
  show ?case
  proof (cases "a = img")
    case True
    from fold_validateImage_keeps_src [OF validateImage_zero_src [OF assms(2)]]
    show ?thesis using True by simp
  next
    case False
    then have "img \<in> set imgs" using Cons.prems by simp
    from Cons.IH [OF this] show ?thesis by simp
  qed
qed

lemma scroll_loop_keeps_src:
  "\<exists>f\<in>set (failedImages r). ii_src f = u \<Longrightarrow>
     \<exists>f\<in>set (failedImages (fst (scroll_loop pg vh sh scroll r))). ii_src f = u"
proof (induction pg vh sh scroll r rule: scroll_loop.induct)
  case (1 pg vh sh scroll r)
  show ?case
  proof (cases "scroll < sh \<and> 0 < vh")
    case False
    then show ?thesis using "1.prems" by (simp add: scroll_loop_stop)
  next
    case True
    show ?thesis
    proof (cases "afterScroll pg scroll")
      case (Inl e)
      then show ?thesis using True "1.prems" by (simp add: scroll_loop_throw)
    next
      case (Inr newImages)
      let ?r = "if length newImages > totalImages r
          then fold (validateImage Map.empty (probe pg)) (drop (totalImages r) newImages) r
          else r"
      have "\<exists>f\<in>set (failedImages ?r). ii_src f = u"
        using "1.prems" fold_validateImage_keeps_src [of r u] by simp
      from "1.IH" [OF True Inr this] show ?thesis
        using True Inr by (simp add: scroll_loop_step)
    qed
  qed
qed

lemma checkLazyLoadedImages_keeps_src:
  assumes "checkLazyLoadedImages pg vh r = Some r'"
    and "\<exists>f\<in>set (failedImages r). ii_src f = u"
  shows "\<exists>f\<in>set (failedImages r'). ii_src f = u"
proof (cases "scrollHeight pg")
  case (Inl e)
  then show ?thesis using assms by (auto simp add: checkLazyLoadedImages_def lazy_warning_def)
next
  case (Inr sh)
  show ?thesis
  proof (cases "vh = 0 \<and> 0 < sh")
    case True
    then show ?thesis
      using assms Inr
      by (auto simp add: checkLazyLoadedImages_def lazy_warning_def split: sum.splits)
  next
    case False
    obtain r1 e where l: "scroll_loop pg vh sh 0 r = (r1, e)"
      by (cases "scroll_loop pg vh sh 0 r") auto
    have t: "\<exists>f\<in>set (failedImages r1). ii_src f = u"
      using scroll_loop_keeps_src [OF assms(2), of pg vh sh 0] l by simp
    have "failedImages r' = failedImages r1"
      using assms(1) Inr False l
      by (auto simp add: checkLazyLoadedImages_def lazy_warning_def split: sum.splits option.splits)
    then show ?thesis using t by simp
  qed
qed

lemma validate_Returns:
  assumes "validate pg vh = Returns res"
  shows "\<exists>imgs r2. getAllImages pg = Inr imgs \<and>
      checkLazyLoadedImages pg vh
        (fold (validateImage (imageResponses pg) (probe pg)) imgs
           (ImageValidator_init\<lparr> totalImages := length imgs \<rparr>)) = Some r2 \<and>
      res = r2\<lparr> im_passed := (failedImages r2 = []),
               loadedImages := int (totalImages r2) - int (length (failedImages r2)) \<rparr>"
  using assms by (auto simp add: validate_def Let_def split: sum.splits option.splits)

lemma validate_zero_fails:
  assumes "getAllImages pg = Inr imgs" and "img \<in> set imgs"
    and "width img = 0 \<or> height img = 0" and "validate pg vh = Returns res"
  shows "\<not> im_passed res \<and> (\<exists>f\<in>set (failedImages res). ii_src f = recorded_src img)"
proof -
  from validate_Returns [OF assms(4)] assms(1) obtain r2 where
    l: "checkLazyLoadedImages pg vh
        (fold (validateImage (imageResponses pg) (probe pg)) imgs
           (ImageValidator_init\<lparr> totalImages := length imgs \<rparr>)) = Some r2"
    and r: "res = r2\<lparr> im_passed := (failedImages r2 = []),
               loadedImages := int (totalImages r2) - int (length (failedImages r2)) \<rparr>"
    by auto
  have "\<exists>f\<in>set (failedImages r2). ii_src f = recorded_src img"
    using checkLazyLoadedImages_keeps_src [OF l fold_validateImage_zero_src [OF assms(2,3)]] .
  then show ?thesis using r by auto
qed

text \<open>The images of the sweep.\<close>

lemma sweep_validated_stop:
  "\<not> (scroll < sh \<and> 0 < vh) \<Longrightarrow> sweep_validated pg vh sh scroll known = []"
  by (subst sweep_validated.simps) auto

lemma sweep_validated_throw:
  "scroll < sh \<Longrightarrow> 0 < vh \<Longrightarrow> afterScroll pg scroll = Inl e \<Longrightarrow>
     sweep_validated pg vh sh scroll known = []"
  by (subst sweep_validated.simps) auto

lemma sweep_validated_step:
  "scroll < sh \<Longrightarrow> 0 < vh \<Longrightarrow> afterScroll pg scroll = Inr newImages \<Longrightarrow>
     sweep_validated pg vh sh scroll known =
       (if length newImages > known then drop known newImages else []) @
       sweep_validated pg vh sh (scroll + vh) known"
  by (subst sweep_validated.simps) auto

lemma fold_validateImage_images:
  "images (fold (validateImage rs pr) imgs r) = images r @ map (image_record rs pr) imgs"
  by (induction imgs arbitrary: r) (simp_all add: validateImage_images)

lemma scroll_loop_images:
  "images (fst (scroll_loop pg vh sh scroll r)) =
     images r @ map (image_record Map.empty (probe pg))
                  (sweep_validated pg vh sh scroll (totalImages r))"
proof (induction pg vh sh scroll r rule: scroll_loop.induct)
  case (1 pg vh sh scroll r)
  show ?case
  proof (cases "scroll < sh \<and> 0 < vh")
    case False
    then show ?thesis by (simp add: scroll_loop_stop sweep_validated_stop)
  next
    case True
    show ?thesis
    proof (cases "afterScroll pg scroll")
      case (Inl e)
      then show ?thesis using True by (simp add: scroll_loop_throw sweep_validated_throw)
    next
      case (Inr newImages)
      then show ?thesis
        using True "1.IH" [OF True Inr]
        by (simp add: scroll_loop_step sweep_validated_step fold_validateImage_totalImages
              fold_validateImage_images)
    qed
  qed
qed

lemma scroll_loop_zero_src:
  assumes "width img = 0 \<or> height img = 0"
  shows "img \<in> set (sweep_validated pg vh sh scroll (totalImages r)) \<Longrightarrow>
     \<exists>f\<in>set (failedImages (fst (scroll_loop pg vh sh scroll r))). ii_src f = recorded_src img"
proof (induction pg vh sh scroll r rule: scroll_loop.induct)
  case (1 pg vh sh scroll r)
  show ?case
  proof (cases "scroll < sh \<and> 0 < vh")
    case False
    then show ?thesis using "1.prems" by (simp add: sweep_validated_stop)
  next
    case True
    show ?thesis
    proof (cases "afterScroll pg scroll")
      case (Inl e)
      then show ?thesis using True "1.prems" by (simp add: sweep_validated_throw)
    next
      case (Inr newImages)
      let ?r = "if length newImages > totalImages r
          then fold (validateImage Map.empty (probe pg)) (drop (totalImages r) newImages) r
          else r"
      have t: "totalImages ?r = totalImages r" by (simp add: fold_validateImage_totalImages)
      have s: "scroll_loop pg vh sh scroll r = scroll_loop pg vh sh (scroll + vh) ?r"
        using True Inr by (simp add: scroll_loop_step)
      from "1.prems" True Inr
      consider (now) "length newImages > totalImages r" "img \<in> set (drop (totalImages r) newImages)"
        | (later) "img \<in> set (sweep_validated pg vh sh (scroll + vh) (totalImages r))"
        by (auto simp add: sweep_validated_step split: if_splits)
      then show ?thesis
      proof cases
        case now
        have "\<exists>f\<in>set (failedImages ?r). ii_src f = recorded_src img"
          using now fold_validateImage_zero_src [OF now(2) assms] by simp
        from scroll_loop_keeps_src [OF this] show ?thesis unfolding s .
      next
        case later
        then have "img \<in> set (sweep_validated pg vh sh (scroll + vh) (totalImages ?r))"
          using t by simp
        from "1.IH" [OF True Inr this] show ?thesis unfolding s .
      qed
    qed
  qed
qed

lemma checkLazyLoadedImages_sweep:
  assumes "checkLazyLoadedImages pg vh r = Some r'" and "scrollHeight pg = Inr sh"
  shows "images r' = images r @ map (image_record Map.empty (probe pg))
                  (sweep_validated pg vh sh 0 (totalImages r))"
    and "width img = 0 \<or> height img = 0 \<Longrightarrow>
         img \<in> set (sweep_validated pg vh sh 0 (totalImages r)) \<Longrightarrow>
         \<exists>f\<in>set (failedImages r'). ii_src f = recorded_src img"
proof -
  show "images r' = images r @ map (image_record Map.empty (probe pg))
                  (sweep_validated pg vh sh 0 (totalImages r))"
  proof (cases "vh = 0 \<and> 0 < sh")
    case True
    then show ?thesis
      using assms
      by (auto simp add: checkLazyLoadedImages_def lazy_warning_def sweep_validated_stop
          split: sum.splits)
  next
    case False
    obtain r1 e where l: "scroll_loop pg vh sh 0 r = (r1, e)"
      by (cases "scroll_loop pg vh sh 0 r") auto
    have "images r' = images r1"
      using assms False l
      by (auto simp add: checkLazyLoadedImages_def lazy_warning_def split: sum.splits option.splits)
    then show ?thesis using scroll_loop_images [of pg vh sh 0 r] l by simp
  qed
  show "\<exists>f\<in>set (failedImages r'). ii_src f = recorded_src img"
    if z: "width img = 0 \<or> height img = 0"
      and m: "img \<in> set (sweep_validated pg vh sh 0 (totalImages r))"
  proof (cases "vh = 0 \<and> 0 < sh")
    case True
    then show ?thesis using m by (simp add: sweep_validated_stop)
  next
    case False
    obtain r1 e where l: "scroll_loop pg vh sh 0 r = (r1, e)"
      by (cases "scroll_loop pg vh sh 0 r") auto
    have "failedImages r' = failedImages r1"
      using assms False l
      by (auto simp add: checkLazyLoadedImages_def lazy_warning_def split: sum.splits option.splits)
    then show ?thesis using scroll_loop_zero_src [OF z m] l by simp
  qed
qed

lemma checkLazyLoadedImages_no_height:
  assumes "checkLazyLoadedImages pg vh r = Some r'" and "scrollHeight pg = Inl e"
  shows "images r' = images r"
  using assms by (auto simp add: checkLazyLoadedImages_def lazy_warning_def)

lemma validate_processed:
  assumes "validate pg vh = Returns res"
  shows "map ii_src (images res) = map recorded_src (processed pg vh)"
    and "map ii_width (images res) = map width (processed pg vh)"
    and "map ii_height (images res) = map height (processed pg vh)"
    and "width img = 0 \<or> height img = 0 \<Longrightarrow> img \<in> set (processed pg vh) \<Longrightarrow>
         \<not> im_passed res \<and> (\<exists>f\<in>set (failedImages res). ii_src f = recorded_src img)"
proof -
  from validate_Returns [OF assms] obtain imgs r2 where
    g: "getAllImages pg = Inr imgs"
    and l: "checkLazyLoadedImages pg vh
        (fold (validateImage (imageResponses pg) (probe pg)) imgs
           (ImageValidator_init\<lparr> totalImages := length imgs \<rparr>)) = Some r2"
    and r: "res = r2\<lparr> im_passed := (failedImages r2 = []),
               loadedImages := int (totalImages r2) - int (length (failedImages r2)) \<rparr>"
    by blast
  let ?r1 = "fold (validateImage (imageResponses pg) (probe pg)) imgs
           (ImageValidator_init\<lparr> totalImages := length imgs \<rparr>)"
  have t: "totalImages ?r1 = length imgs" by (simp add: fold_validateImage_totalImages)
  have i1: "images ?r1 = map (image_record (imageResponses pg) (probe pg)) imgs"
    by (simp add: fold_validateImage_images ImageValidator_init_def)
  have i: "images res = map (image_record (imageResponses pg) (probe pg)) imgs @
      map (image_record Map.empty (probe pg)) (drop (length imgs) (processed pg vh))
      \<and> take (length imgs) (processed pg vh) = imgs"
  proof (cases "scrollHeight pg")
    case (Inl e)
    then show ?thesis
      using checkLazyLoadedImages_no_height [OF l Inl] g r i1 by (simp add: processed_def)
  next
    case (Inr sh)
    then show ?thesis
      using checkLazyLoadedImages_sweep(1) [OF l Inr] g r i1 t by (simp add: processed_def)
  qed
  have p: "processed pg vh = imgs @ drop (length imgs) (processed pg vh)"
    using i by (metis append_take_drop_id)
  have f: "\<And>rs. map ii_src (map (image_record rs (probe pg)) xs) = map recorded_src xs"
    "\<And>rs. map ii_width (map (image_record rs (probe pg)) xs) = map width xs"
    "\<And>rs. map ii_height (map (image_record rs (probe pg)) xs) = map height xs" for xs
    by (simp_all add: image_record_fields)
  show "map ii_src (images res) = map recorded_src (processed pg vh)"
    by (subst p) (simp add: i f del: map_map)
  show "map ii_width (images res) = map width (processed pg vh)"
    by (subst p) (simp add: i f del: map_map)
  show "map ii_height (images res) = map height (processed pg vh)"
    by (subst p) (simp add: i f del: map_map)
  show "\<not> im_passed res \<and> (\<exists>f\<in>set (failedImages res). ii_src f = recorded_src img)"
    if z: "width img = 0 \<or> height img = 0" and m: "img \<in> set (processed pg vh)"
  proof -
    have "\<exists>f\<in>set (failedImages r2). ii_src f = recorded_src img"
    proof (cases "img \<in> set imgs")
      case True
      from checkLazyLoadedImages_keeps_src [OF l fold_validateImage_zero_src [OF True z]]
      show ?thesis .
    next
      case False
      then have "\<exists>sh. scrollHeight pg = Inr sh \<and>
           img \<in> set (sweep_validated pg vh sh 0 (length imgs))"
        using m g by (cases "scrollHeight pg") (auto simp add: processed_def)
      then obtain sh where sh: "scrollHeight pg = Inr sh"
        and s: "img \<in> set (sweep_validated pg vh sh 0 (length imgs))"
        by blast
      from checkLazyLoadedImages_sweep(2) [OF l sh z] s t show ?thesis by simp
    qed
    then show ?thesis using r by auto
  qed
qed

text \<open>
  C5, as stated, fails: the second image has width and height zero, its response has
  status 200, and \<open>failedImages\<close> already holds the record of another image with the
  same \<open>src\<close>. Its own record is appended to \<open>images\<close> only.
\<close>

theorem zero_dimension_image_not_recorded_counterexample:
  "width banner_empty = 0
   \<and> validate banner_page 1080 = Returns
       \<lparr> im_passed = False, totalImages = 2, loadedImages = 1,
         failedImages =
           [\<lparr> ii_src = js ''https://shop.example/banner.jpg'', ii_alt = js ''Banner'', ii_width = 640, ii_height = 480,
              ii_loaded = False, ii_status = Some 404, ii_error = Some (Http 404) \<rparr>],
         missingAltText = [],
         images =
           [\<lparr> ii_src = js ''https://shop.example/banner.jpg'', ii_alt = js ''Banner'', ii_width = 640, ii_height = 480,
              ii_loaded = False, ii_status = Some 404, ii_error = Some (Http 404) \<rparr>,
            \<lparr> ii_src = js ''https://shop.example/banner.jpg'', ii_alt = js ''Banner'', ii_width = 0, ii_height = 0,
              ii_loaded = True, ii_status = Some 200, ii_error = Some Zero_dimensions \<rparr>],
         im_warnings = [] \<rparr>"
  by code_simp

text \<open>
  C5, amended: when an image of width or height zero has been processed,
  \<open>failedImages\<close> holds an entry with the URL of the image, whatever the completion
  flag, the response status and the probe say. The entry is the record of the image
  itself, with the zero-dimensions error, when the load check failed or no entry with
  that URL was there before; otherwise \<open>failedImages\<close> is unchanged. In both cases the
  verdict of \<open>validate\<close> is false, for an image of the first enumeration and for one
  that the sweep validates; the records of \<open>results.images\<close> are those of the images
  processed, in order.
\<close>

theorem zero_dimension_image_recorded:
  assumes "width img = 0 \<or> height img = 0"
  shows "(\<exists>f\<in>set (failedImages (validateImage rs pr img r)). ii_src f = recorded_src img)
     \<and> failedImages (validateImage rs pr img r) =
         failedImages r @
           (if load_failed rs pr img \<or> \<not> list_ex (\<lambda>f. ii_src f = recorded_src img) (failedImages r)
            then [image_record rs pr img] else [])
     \<and> images (validateImage rs pr img r) = images r @ [image_record rs pr img]
     \<and> ii_src (image_record rs pr img) = recorded_src img
     \<and> ii_width (image_record rs pr img) = width img
     \<and> ii_height (image_record rs pr img) = height img
     \<and> ii_error (image_record rs pr img) = Some Zero_dimensions
     \<and> (getAllImages pg = Inr imgs \<and> img \<in> set imgs \<and> validate pg vh = Returns res
          \<longrightarrow> \<not> im_passed res \<and> (\<exists>f\<in>set (failedImages res). ii_src f = recorded_src img))
     \<and> (img \<in> set (processed pg vh) \<and> validate pg vh = Returns res
          \<longrightarrow> \<not> im_passed res \<and> (\<exists>f\<in>set (failedImages res). ii_src f = recorded_src img))
     \<and> (validate pg vh = Returns res
          \<longrightarrow> map ii_src (images res) = map recorded_src (processed pg vh) \<and>
              map ii_width (images res) = map width (processed pg vh) \<and>
              map ii_height (images res) = map height (processed pg vh))"
proof -
  have 1: "\<exists>f\<in>set (failedImages (validateImage rs pr img r)). ii_src f = recorded_src img"
    using validateImage_zero_src [OF assms] .
  have 2: "failedImages (validateImage rs pr img r) =
         failedImages r @
           (if load_failed rs pr img \<or> \<not> list_ex (\<lambda>f. ii_src f = recorded_src img) (failedImages r)
            then [image_record rs pr img] else [])"
    using assms by (simp add: validateImage_failedImages)
  have 3: "getAllImages pg = Inr imgs \<and> img \<in> set imgs \<and> validate pg vh = Returns res
          \<longrightarrow> \<not> im_passed res \<and> (\<exists>f\<in>set (failedImages res). ii_src f = recorded_src img)"
    using validate_zero_fails [of pg imgs img vh res] assms by blast
  have 4: "img \<in> set (processed pg vh) \<and> validate pg vh = Returns res
          \<longrightarrow> \<not> im_passed res \<and> (\<exists>f\<in>set (failedImages res). ii_src f = recorded_src img)"
    using validate_processed(4) [of pg vh res img] assms by blast
  have 5: "validate pg vh = Returns res
          \<longrightarrow> map ii_src (images res) = map recorded_src (processed pg vh) \<and>
              map ii_width (images res) = map width (processed pg vh) \<and>
              map ii_height (images res) = map height (processed pg vh)"
    using validate_processed(1-3) [of pg vh res] by blast
  have 6: "images (validateImage rs pr img r) = images r @ [image_record rs pr img]
     \<and> ii_src (image_record rs pr img) = recorded_src img
     \<and> ii_width (image_record rs pr img) = width img
     \<and> ii_height (image_record rs pr img) = height img
     \<and> ii_error (image_record rs pr img) = Some Zero_dimensions"
    using validateImage_images [of rs pr img r]
      image_record_fields [where rs = rs and pr = pr and img = img] assms
    by simp
  show ?thesis using 1 2 3 4 5 6 by blast
qed

theorem zero_dimension_image_recorded_witness:
  "(width banner_empty = 0 \<or> height banner_empty = 0)
   \<and> \<not> load_failed banner_responses probe_ok banner_empty
   \<and> failedImages (validateImage banner_responses probe_ok banner_empty ImageValidator_init) =
       [image_record banner_responses probe_ok banner_empty]
   \<and> ii_error (image_record banner_responses probe_ok banner_empty) = Some Zero_dimensions
   \<and> getAllImages banner_page = Inr [banner_failed, banner_empty]
   \<and> \<not> im_passed (the_result (validate banner_page 1080))
   \<and> processed empty_lazy_page 1080 = [hero, lazy_empty]
   \<and> (width lazy_empty = 0 \<or> height lazy_empty = 0)
   \<and> \<not> im_passed (the_result (validate empty_lazy_page 1080))"
proof -
  have h: "width banner_empty = 0 \<or> height banner_empty = 0"
    by (simp add: banner_empty_def)
  have a: "\<not> load_failed banner_responses probe_ok banner_empty
     \<and> failedImages ImageValidator_init = []
     \<and> getAllImages banner_page = Inr [banner_failed, banner_empty]
     \<and> banner_empty \<in> set [banner_failed, banner_empty]
     \<and> validate banner_page 1080 = Returns (the_result (validate banner_page 1080))"
    by code_simp
  have k: "width lazy_empty = 0 \<or> height lazy_empty = 0"
    by (simp add: lazy_empty_def)
  have b: "processed empty_lazy_page 1080 = [hero, lazy_empty]
     \<and> validate empty_lazy_page 1080 = Returns (the_result (validate empty_lazy_page 1080))"
    by code_simp
  show ?thesis
    using h a zero_dimension_image_recorded [where img = banner_empty and rs = banner_responses
        and pr = probe_ok and r = ImageValidator_init and pg = banner_page
        and imgs = "[banner_failed, banner_empty]" and vh = 1080
        and res = "the_result (validate banner_page 1080)"]
      k b zero_dimension_image_recorded [where img = lazy_empty and rs = Map.empty
        and pr = probe_ok and r = ImageValidator_init and pg = empty_lazy_page
        and imgs = "[hero]" and vh = 1080
        and res = "the_result (validate empty_lazy_page 1080)"]
    by simp
qed

text \<open>
  C6: the sweep never updates \<open>totalImages\<close>, so an image that appears with the first
  scroll step is validated again at every later step. On a page 3000 high with a
  viewport of 1080 the loop runs at offsets 0, 1080 and 2160, and the record of the
  lazy image is appended three times.
\<close>

theorem lazy_image_validated_at_every_step:
  "scrollHeight lazy_page = Inr 3000
   \<and> getAllImages lazy_page = Inr [hero]
   \<and> afterScroll lazy_page 0 = Inr [hero, lazy_photo]
   \<and> validate lazy_page 1080 = Returns
       \<lparr> im_passed = True, totalImages = 1, loadedImages = 1, failedImages = [],
         missingAltText = [],
         images =
           [\<lparr> ii_src = js ''https://shop.example/hero.jpg'', ii_alt = js ''Hero'', ii_width = 800, ii_height = 600,
              ii_loaded = True, ii_status = None, ii_error = None \<rparr>,
            \<lparr> ii_src = js ''https://shop.example/lazy.jpg'', ii_alt = js ''Detail'', ii_width = 400, ii_height = 300,
              ii_loaded = True, ii_status = Some 200, ii_error = None \<rparr>,
            \<lparr> ii_src = js ''https://shop.example/lazy.jpg'', ii_alt = js ''Detail'', ii_width = 400, ii_height = 300,
              ii_loaded = True, ii_status = Some 200, ii_error = None \<rparr>,
            \<lparr> ii_src = js ''https://shop.example/lazy.jpg'', ii_alt = js ''Detail'', ii_width = 400, ii_height = 300,
              ii_loaded = True, ii_status = Some 200, ii_error = None \<rparr>],
         im_warnings = [] \<rparr>"
  by code_simp

text \<open>
  C9: when \<open>validate\<close> returns, \<open>loadedImages\<close> is \<open>totalImages\<close> minus the length of
  \<open>failedImages\<close>, where \<open>totalImages\<close> is the number of images of the first
  enumeration; the value can be negative.
\<close>

theorem loadedImages_final_assignment:
  "(validate pg vh = Returns res \<longrightarrow>
      loadedImages res = int (totalImages res) - int (length (failedImages res)) \<and>
      (\<exists>imgs. getAllImages pg = Inr imgs \<and> totalImages res = length imgs))
   \<and> (\<exists>pg' vh' res'. validate pg' vh' = Returns res' \<and> loadedImages res' < 0)"
proof -
  have 1: "loadedImages res = int (totalImages res) - int (length (failedImages res)) \<and>
      (\<exists>imgs. getAllImages pg = Inr imgs \<and> totalImages res = length imgs)"
    if v: "validate pg vh = Returns res"
  proof -
    from validate_Returns [OF v] obtain imgs r2 where
      g: "getAllImages pg = Inr imgs"
      and l: "checkLazyLoadedImages pg vh
        (fold (validateImage (imageResponses pg) (probe pg)) imgs
           (ImageValidator_init\<lparr> totalImages := length imgs \<rparr>)) = Some r2"
      and r: "res = r2\<lparr> im_passed := (failedImages r2 = []),
               loadedImages := int (totalImages r2) - int (length (failedImages r2)) \<rparr>"
      by blast
    have "totalImages r2 = length imgs"
      using checkLazyLoadedImages_totalImages [OF l]
      by (simp add: fold_validateImage_totalImages)
    then show ?thesis using g r by simp
  qed
  have "validate broken_lazy_page 1080 = Returns (the_result (validate broken_lazy_page 1080))
      \<and> loadedImages (the_result (validate broken_lazy_page 1080)) < 0"
    by code_simp
  then have 2: "\<exists>pg' vh' res'. validate pg' vh' = Returns res' \<and> loadedImages res' < 0"
    by blast
  show ?thesis using 1 2 by blast
qed

theorem loadedImages_final_assignment_witness:
  "validate broken_lazy_page 1080 = Returns (the_result (validate broken_lazy_page 1080))
   \<and> getAllImages broken_lazy_page = Inr []
   \<and> totalImages (the_result (validate broken_lazy_page 1080)) = 0
   \<and> length (failedImages (the_result (validate broken_lazy_page 1080))) = 1
   \<and> loadedImages (the_result (validate broken_lazy_page 1080)) = - 1"
proof -
  have a: "validate broken_lazy_page 1080 = Returns (the_result (validate broken_lazy_page 1080))
     \<and> getAllImages broken_lazy_page = Inr []
     \<and> length (failedImages (the_result (validate broken_lazy_page 1080))) = 1"
    by code_simp
  show ?thesis
    using a loadedImages_final_assignment [of broken_lazy_page 1080 "the_result (validate broken_lazy_page 1080)"]
    by simp
qed

section \<open>The runner\<close>

text \<open>
  C1: when the page run returns and holds the results of the three modules, the overall
  verdict is the conjunction of their three verdicts, and no error is recorded.
\<close>

theorem overall_passed_conjunction:
  assumes "testProductPage lower newPage url cfg platform = Returns res"
    and "productPage res = Some pp" and "res_images res = Some im" and "res_errors res = Some er"
  shows "overall_passed res = (pp_passed pp \<and> im_passed im \<and> er_passed er)
     \<and> overall_error res = None"
  using assms
  by (auto simp add: testProductPage_def run_page_def caught_def Let_def
      split: sum.splits option.splits outcome.splits)

theorem overall_passed_conjunction_witness:
  "testProductPage ascii_lower (Inr shop_browser_page) (js ''https://shop.example/p/1'')
     shop_config (js ''auto'') = Returns (the_result shop_run)
   \<and> productPage (the_result shop_run) = Some (the (productPage (the_result shop_run)))
   \<and> res_images (the_result shop_run) = Some (the (res_images (the_result shop_run)))
   \<and> res_errors (the_result shop_run) = Some (the (res_errors (the_result shop_run)))
   \<and> pp_passed (the (productPage (the_result shop_run)))
   \<and> im_passed (the (res_images (the_result shop_run)))
   \<and> er_passed (the (res_errors (the_result shop_run)))
   \<and> overall_passed (the_result shop_run)"
proof -
  have a: "testProductPage ascii_lower (Inr shop_browser_page) (js ''https://shop.example/p/1'')
     shop_config (js ''auto'') = Returns (the_result shop_run)"
    by code_simp
  have b: "productPage (the_result shop_run) = Some (the (productPage (the_result shop_run)))"
    by code_simp
  have c: "res_images (the_result shop_run) = Some (the (res_images (the_result shop_run)))"
    by code_simp
  have d: "res_errors (the_result shop_run) = Some (the (res_errors (the_result shop_run)))"
    by code_simp
  have e: "pp_passed (the (productPage (the_result shop_run)))
     \<and> im_passed (the (res_images (the_result shop_run)))
     \<and> er_passed (the (res_errors (the_result shop_run)))"
    by code_simp
  show ?thesis
    using a b c d e overall_passed_conjunction [OF a b c d] by simp
qed

text \<open>A run that records a fault fails.\<close>

lemma recorded_fault_fails:
  assumes "testProductPage lower newPage url cfg platform = Returns res"
    and "overall_error res \<noteq> None"
  shows "\<not> overall_passed res"
  using assms
  by (auto simp add: testProductPage_def run_page_def caught_def Let_def
      split: sum.splits option.splits outcome.splits)

end
